theory Spec2Isabelle
  imports Main
begin

section \<open>Strings\<close>

text \<open>
  JavaScript strings are modelled as \<^typ>\<open>string\<close>. The two line-break characters and the
  backslash are named, since they cannot be written inside a string literal.
\<close>

definition LF :: char where
  "LF = CHR 0x0A"

definition CR :: char where
  "CR = CHR 0x0D"

definition BSL :: char where
  "BSL = CHR 0x5C"

text \<open>Template interpolation of a number: the decimal digits.\<close>

definition digitChar :: "nat \<Rightarrow> char" where
  "digitChar d = char_of (48 + d)"

function showNat :: "nat \<Rightarrow> string" where
  "showNat n = (if n < 10 then [digitChar n] else showNat (n div 10) @ [digitChar (n mod 10)])"
  by pat_completeness auto
termination
  by (relation "measure id") auto

definition showInt :: "int \<Rightarrow> string" where
  "showInt i = (if i < 0 then CHR ''-'' # showNat (nat (- i)) else showNat (nat i))"

text \<open>\<^verbatim>\<open>`${code}`\<close> for the exit code of a child process, which is a number or \<^verbatim>\<open>null\<close>.\<close>

definition showCode :: "int option \<Rightarrow> string" where
  "showCode code = (case code of None \<Rightarrow> ''null'' | Some c \<Rightarrow> showInt c)"

text \<open>\<^verbatim>\<open>s.replace(/:/g, '-')\<close> and \<^verbatim>\<open>s.replace(/\n/g, '\n  ')\<close>.\<close>

definition colonsToDashes :: "string \<Rightarrow> string" where
  "colonsToDashes s = map (\<lambda>c. if c = CHR '':'' then CHR ''-'' else c) s"

definition indentLines :: "string \<Rightarrow> string" where
  "indentLines s = concat (map (\<lambda>c. if c = LF then [LF, CHR '' '', CHR '' ''] else [c]) s)"

text \<open>\<^verbatim>\<open>s.includes(p)\<close>.\<close>

fun startsWith :: "string \<Rightarrow> string \<Rightarrow> bool" where
  "startsWith s [] = True"
| "startsWith [] (p # ps) = False"
| "startsWith (c # cs) (p # ps) = (c = p \<and> startsWith cs ps)"

fun includesStr :: "string \<Rightarrow> string \<Rightarrow> bool" where
  "includesStr [] p = (p = [])"
| "includesStr (c # cs) p = (startsWith (c # cs) p \<or> includesStr cs p)"

text \<open>
  \<^verbatim>\<open>s.trim()\<close>. Characters are the code points below 256; the white space and line
  terminators of JavaScript among them are 9 to 13, 32 and 160.
\<close>

definition isSpace :: "char \<Rightarrow> bool" where
  "isSpace c = (of_char c \<in> {9, 10, 11, 12, 13, 32, 160 :: nat})"

definition trim :: "string \<Rightarrow> string" where
  "trim s = rev (dropWhile isSpace (rev (dropWhile isSpace s)))"

text \<open>The lines of a text: the pieces between line feeds.\<close>

fun splitLF :: "string \<Rightarrow> string list" where
  "splitLF [] = [[]]"
| "splitLF (c # cs) = (if c = LF then [] # splitLF cs
     else (case splitLF cs of l # ls \<Rightarrow> (c # l) # ls | [] \<Rightarrow> [[c]]))"

section \<open>Values, results and the world\<close>

text \<open>
  Every value the program throws or rejects with is an \<^verbatim>\<open>Error\<close> object; only its message
  is ever read.
\<close>

datatype jserror = JSError (message: string)

text \<open>
  An awaited call returns a value, throws, or never comes back to its caller: because
  \<^verbatim>\<open>process.exit\<close> ended the process, because the awaited promise is never settled, or
  because a promise nobody awaits was rejected, which ends a Node.js process at once.
\<close>

datatype stop = ProcessExit nat | NeverSettles | Unhandled jserror

datatype 'a res = Ok 'a | Err jserror | Stop stop

datatype level = INFO | WARN | ERROR

fun levelStr :: "level \<Rightarrow> string" where
  "levelStr INFO = ''INFO''"
| "levelStr WARN = ''WARN''"
| "levelStr ERROR = ''ERROR''"

datatype colour = Green | Red | Yellow | Gray | BoldCyan | BoldGreen

datatype task_key = HwInfo | WinUpdate | Winget | Choco | Dism | Sfc | Cleanup | Optimize

text \<open>
  A path built by \<^verbatim>\<open>path.join(dir, name)\<close> is kept as the pair of its directory and its entry
  name; \<open>pathStr\<close> below renders it where it is interpolated into a text.
\<close>

type_synonym path = "string \<times> string"

text \<open>One choice of the checkbox prompt: \<^verbatim>\<open>{ name, value, checked }\<close>.\<close>

type_synonym choice = "string \<times> task_key \<times> bool"

text \<open>
  Everything the program does to the outside is recorded, in order, in a trace: what it
  shows on the terminal, the processes it spawns, its file-system calls and the prompt.
\<close>

datatype event =
    SpinnerStart string
  | SpinnerSucceed colour string
  | SpinnerFail colour string
  | ConsoleLog "colour option" string
  | ConsoleError colour string
  | Spawn string "string list"
  | AppendFile path string
  | WriteFile path string
  | Unlink path
  | Readdir string
  | Rm path
  | Prompt "choice list"

text \<open>
  The world: the trace, the files (an association list from path to the chunks written to
  the file; what lies below a directory has the rendered path of that directory as its
  directory), and a counter of the consultations of the clock and of \<^verbatim>\<open>fs.appendFile\<close>.
\<close>

record world =
  trace :: "event list"
  files :: "(path \<times> string list) list"
  tick :: nat

type_synonym 'a action = "world \<Rightarrow> 'a res \<times> world"

text \<open>Events of a child process, as its listeners see them.\<close>

datatype proc_event =
    StdoutData string
  | StderrData string
  | Close "int option"
  | ErrorEvent jserror

text \<open>
  The environment of one run: the command line flag, the platform constants and an oracle
  for every answer the program gets from outside.
  \<^item> \<open>clock t\<close> is \<^verbatim>\<open>new Date().toISOString()\<close> and \<open>dateNow t\<close> is \<^verbatim>\<open>Date.now()\<close> at tick \<open>t\<close>;
  \<^item> \<open>appendErr t\<close> is the error with which \<^verbatim>\<open>fs.appendFile\<close> rejects at tick \<open>t\<close>, if it does;
  \<^item> \<open>writeFileErr\<close>, \<open>unlinkErr\<close>, \<open>readdirErr\<close> and \<open>rmErr\<close> are the errors with which
    \<^verbatim>\<open>fs.writeFile\<close>, \<^verbatim>\<open>fs.unlink\<close>, \<^verbatim>\<open>fs.readdir\<close> and
    \<^verbatim>\<open>fs.rm(path, { recursive: true, force: true })\<close> reject on a path, if they do;
  \<^item> \<open>nameRank\<close> gives the order in which the file system lists the names of a directory:
    by ascending rank;
  \<^item> \<open>spawnEvents command args\<close> are the events of the child process spawned for a command;
  \<^item> \<open>promptErr\<close> is the error with which the prompt rejects, if it does, and \<open>ticked\<close> tells
    which choices are ticked when the user confirms;
  \<^item> \<open>updateScript\<close> and \<open>inventoryScript\<close> are the texts of the two embedded PowerShell
    scripts; \<open>parseErr stdout\<close> is the error \<^verbatim>\<open>JSON.parse(stdout)\<close> throws, if it does, and
    \<open>render stdout\<close> is the summary built from the parsed value, or the error a missing
    section makes the property accesses throw.
\<close>

record env =
  silent :: bool
  tmpdir :: string
  sep :: string
  eol :: string
  clock :: "nat \<Rightarrow> string"
  dateNow :: "nat \<Rightarrow> nat"
  appendErr :: "nat \<Rightarrow> jserror option"
  writeFileErr :: "path \<Rightarrow> jserror option"
  unlinkErr :: "path \<Rightarrow> jserror option"
  readdirErr :: "string \<Rightarrow> jserror option"
  rmErr :: "path \<Rightarrow> jserror option"
  nameRank :: "string \<Rightarrow> nat"
  spawnEvents :: "string \<Rightarrow> string list \<Rightarrow> proc_event list"
  promptErr :: "jserror option"
  ticked :: "choice \<Rightarrow> bool"
  updateScript :: string
  inventoryScript :: string
  parseErr :: "string \<Rightarrow> jserror option"
  render :: "string \<Rightarrow> jserror + string"

definition pathStr :: "env \<Rightarrow> path \<Rightarrow> string" where
  "pathStr e p = fst p @ sep e @ snd p"

section \<open>Sequencing\<close>

definition emit :: "event \<Rightarrow> world \<Rightarrow> world" where
  "emit ev w = w\<lparr>trace := trace w @ [ev]\<rparr>"

text \<open>\<^verbatim>\<open>const x = await m; ...\<close>\<close>

definition andThen :: "'a action \<Rightarrow> ('a \<Rightarrow> 'b action) \<Rightarrow> 'b action" where
  "andThen m f w = (case m w of
       (Ok a, w1) \<Rightarrow> f a w1
     | (Err e, w1) \<Rightarrow> (Err e, w1)
     | (Stop s, w1) \<Rightarrow> (Stop s, w1))"

text \<open>\<^verbatim>\<open>try { m } catch (error) { h }\<close>, and \<^verbatim>\<open>m.catch(h)\<close> on a promise.\<close>

definition tryCatch :: "'a action \<Rightarrow> (jserror \<Rightarrow> 'a action) \<Rightarrow> 'a action" where
  "tryCatch m h w = (case m w of
       (Ok a, w1) \<Rightarrow> (Ok a, w1)
     | (Err e, w1) \<Rightarrow> h e w1
     | (Stop s, w1) \<Rightarrow> (Stop s, w1))"

text \<open>\<^verbatim>\<open>try { m } finally { f }\<close>: what \<open>f\<close> throws replaces the outcome of \<open>m\<close>.\<close>

definition andFinally :: "'a action \<Rightarrow> unit action \<Rightarrow> 'a action" where
  "andFinally m f w = (case m w of
       (Stop s, w1) \<Rightarrow> (Stop s, w1)
     | (r, w1) \<Rightarrow> (case f w1 of
           (Ok u, w2) \<Rightarrow> (r, w2)
         | (Err e, w2) \<Rightarrow> (Err e, w2)
         | (Stop s, w2) \<Rightarrow> (Stop s, w2)))"

text \<open>
  A call whose promise is dropped. The call is taken to complete where it is made. When it
  is rejected there is no handler for the rejection, and the process ends there.
\<close>

definition detached :: "'a action \<Rightarrow> unit action" where
  "detached m w = (case m w of
       (Ok a, w1) \<Rightarrow> (Ok (), w1)
     | (Err e, w1) \<Rightarrow> (Stop (Unhandled e), w1)
     | (Stop s, w1) \<Rightarrow> (Stop s, w1))"

section \<open>The file system and the clock\<close>

definition toISOString :: "env \<Rightarrow> string action" where
  "toISOString e w = (Ok (clock e (tick w)), w\<lparr>tick := Suc (tick w)\<rparr>)"

definition dateNowCall :: "env \<Rightarrow> nat action" where
  "dateNowCall e w = (Ok (dateNow e (tick w)), w\<lparr>tick := Suc (tick w)\<rparr>)"

text \<open>\<^verbatim>\<open>fs.appendFile\<close> creates the file when it is absent.\<close>

fun appendChunk :: "path \<Rightarrow> string \<Rightarrow> (path \<times> string list) list \<Rightarrow> (path \<times> string list) list" where
  "appendChunk p d [] = [(p, [d])]"
| "appendChunk p d ((q, cs) # fs) =
     (if q = p then (q, cs @ [d]) # fs else (q, cs) # appendChunk p d fs)"

definition appendFile :: "env \<Rightarrow> path \<Rightarrow> string \<Rightarrow> unit action" where
  "appendFile e p d w =
     (let w1 = (emit (AppendFile p d) w)\<lparr>tick := Suc (tick w)\<rparr>
      in case appendErr e (tick w) of
           Some err \<Rightarrow> (Err err, w1)
         | None \<Rightarrow> (Ok (), w1\<lparr>files := appendChunk p d (files w1)\<rparr>))"

fun putFile :: "path \<Rightarrow> string \<Rightarrow> (path \<times> string list) list \<Rightarrow> (path \<times> string list) list" where
  "putFile p d [] = [(p, [d])]"
| "putFile p d ((q, cs) # fs) =
     (if q = p then (q, [d]) # fs else (q, cs) # putFile p d fs)"

definition writeFile :: "env \<Rightarrow> path \<Rightarrow> string \<Rightarrow> unit action" where
  "writeFile e p d w =
     (let w1 = emit (WriteFile p d) w
      in case writeFileErr e p of
           Some err \<Rightarrow> (Err err, w1)
         | None \<Rightarrow> (Ok (), w1\<lparr>files := putFile p d (files w1)\<rparr>))"

definition removePath :: "path \<Rightarrow> (path \<times> string list) list \<Rightarrow> (path \<times> string list) list" where
  "removePath p fs = filter (\<lambda>f. fst f \<noteq> p) fs"

definition unlink :: "env \<Rightarrow> path \<Rightarrow> unit action" where
  "unlink e p w =
     (let w1 = emit (Unlink p) w
      in case unlinkErr e p of
           Some err \<Rightarrow> (Err err, w1)
         | None \<Rightarrow> (Ok (), w1\<lparr>files := removePath p (files w1)\<rparr>))"

text \<open>
  \<^verbatim>\<open>fs.rm(path, { recursive: true, force: true })\<close> removes the path and, when it is a
  directory, everything below it.
\<close>

definition below :: "env \<Rightarrow> path \<Rightarrow> path \<Rightarrow> bool" where
  "below e p q = (fst q = pathStr e p \<or> startsWith (fst q) (pathStr e p @ sep e))"

definition removeTree :: "env \<Rightarrow> path \<Rightarrow> (path \<times> string list) list \<Rightarrow> (path \<times> string list) list" where
  "removeTree e p fs = filter (\<lambda>f. fst f \<noteq> p \<and> \<not> below e p (fst f)) fs"

definition rm :: "env \<Rightarrow> path \<Rightarrow> unit action" where
  "rm e p w =
     (let w1 = emit (Rm p) w
      in case rmErr e p of
           Some err \<Rightarrow> (Err err, w1)
         | None \<Rightarrow> (Ok (), w1\<lparr>files := removeTree e p (files w1)\<rparr>))"

text \<open>
  The entry names of a directory, and the list \<^verbatim>\<open>fs.readdir\<close> answers with: the names in
  the order of the file system.
\<close>

definition entries :: "string \<Rightarrow> (path \<times> string list) list \<Rightarrow> string list" where
  "entries dir fs = map (\<lambda>f. snd (fst f)) (filter (\<lambda>f. fst (fst f) = dir) fs)"

definition listing :: "env \<Rightarrow> string \<Rightarrow> (path \<times> string list) list \<Rightarrow> string list" where
  "listing e dir fs = sort_key (nameRank e) (entries dir fs)"

definition readdir :: "env \<Rightarrow> string \<Rightarrow> string list action" where
  "readdir e dir w =
     (let w1 = emit (Readdir dir) w
      in case readdirErr e dir of
           Some err \<Rightarrow> (Err err, w1)
         | None \<Rightarrow> (Ok (listing e dir (files w1)), w1))"

section \<open>The logger\<close>

text \<open>
  \<^verbatim>\<open>logFile\<close> is computed once, when the module is loaded, from the clock at tick 0.
\<close>

definition logName :: "env \<Rightarrow> string" where
  "logName e = ''SystemMaintenance-'' @ colonsToDashes (clock e 0) @ ''.log''"

definition logFile :: "env \<Rightarrow> path" where
  "logFile e = (tmpdir e, logName e)"

definition logEntry :: "string \<Rightarrow> level \<Rightarrow> string \<Rightarrow> string \<Rightarrow> string" where
  "logEntry timestamp lvl msg terminator =
     timestamp @ '' ['' @ levelStr lvl @ ''] '' @ msg @ terminator"

definition writeLog :: "env \<Rightarrow> string \<Rightarrow> level \<Rightarrow> unit action" where
  "writeLog e msg lvl =
     andThen (toISOString e) (\<lambda>timestamp.
       appendFile e (logFile e) (logEntry timestamp lvl msg (eol e)))"

section \<open>The process invoker\<close>

text \<open>
  The state of one \<^verbatim>\<open>runCommand\<close> call: the two accumulators and the promise, which is
  pending (\<open>None\<close>) or settled; \<^verbatim>\<open>resolve\<close> and \<^verbatim>\<open>reject\<close> on a settled promise do nothing.
\<close>

type_synonym child = "string \<times> string \<times> (string \<times> string) res option"

fun settle :: "'a option \<Rightarrow> 'a \<Rightarrow> 'a option" where
  "settle None r = Some r"
| "settle (Some r0) r = Some r0"

fun onEvent :: "child \<Rightarrow> proc_event \<Rightarrow> child" where
  "onEvent (out, err, p) (StdoutData d) = (out @ d, err, p)"
| "onEvent (out, err, p) (StderrData d) = (out, err @ d, p)"
| "onEvent (out, err, p) (Close code) =
     (out, err, settle p
        (if code = Some 0 then Ok (out, err)
         else Err (JSError (''Command failed with exit code '' @ showCode code @ [LF] @ err))))"
| "onEvent (out, err, p) (ErrorEvent er) = (out, err, settle p (Err er))"

definition promiseOf :: "proc_event list \<Rightarrow> (string \<times> string) res option" where
  "promiseOf evs = snd (snd (foldl onEvent ([], [], None) evs))"

definition runCommand :: "env \<Rightarrow> string \<Rightarrow> string list \<Rightarrow> (string \<times> string) action" where
  "runCommand e command args w =
     (case promiseOf (spawnEvents e command args) of
        None \<Rightarrow> (Stop NeverSettles, emit (Spawn command args) w)
      | Some r \<Rightarrow> (r, emit (Spawn command args) w))"

section \<open>The task wrapper and the gate\<close>

text \<open>
  The operation returns \<^verbatim>\<open>undefined\<close> (\<open>None\<close>) or \<^verbatim>\<open>{ message }\<close> (\<open>Some message\<close>);
  \<^verbatim>\<open>result && result.message\<close> holds for a message that is not empty. The earlier variant of
  the wrapper in \<^verbatim>\<open>src/index.js\<close> is the same without the result message; neither variant
  calls the logger on the success path.
\<close>

definition runTask :: "env \<Rightarrow> string \<Rightarrow> string option action \<Rightarrow> bool action" where
  "runTask e title task w =
     tryCatch
       (andThen task (\<lambda>result w1.
          (Ok True, emit (SpinnerSucceed Green
             (case result of
                Some m \<Rightarrow> if m \<noteq> [] then title @ '' - '' @ m else title
              | None \<Rightarrow> title)) w1)))
       (\<lambda>error w1.
          andThen (writeLog e (title @ '' failed: '' @ message error) ERROR) (\<lambda>u w2. (Ok False, w2))
            (emit (ConsoleError Red (''  '' @ indentLines (message error)))
               (emit (SpinnerFail Red title) w1)))
       (emit (SpinnerStart title) w)"

definition checkAdmin :: "env \<Rightarrow> unit action" where
  "checkAdmin e w =
     tryCatch
       (andThen (runCommand e ''net'' [''session'']) (\<lambda>r w1.
          writeLog e ''Running as Administrator: OK'' INFO
            (emit (SpinnerSucceed Green ''Running as Administrator: OK'') w1)))
       (\<lambda>error w1.
          andThen (writeLog e ''ERROR: Script not running as Administrator.'' ERROR)
            (\<lambda>u w2. (Stop (ProcessExit 1), w2))
            (emit (ConsoleLog (Some Yellow)
               ''Please re-run your terminal (PowerShell, Command Prompt, etc.) as an Administrator.'')
               (emit (ConsoleError Red ''ERROR: This script requires Administrator privileges!'')
                  (emit (SpinnerFail Red ''Administrator privileges check failed.'') w1))))
       (emit (SpinnerStart ''Checking for Administrator privileges'') w)"

section \<open>The maintenance operations\<close>

definition runWindowsUpdateCheck :: "env \<Rightarrow> bool action" where
  "runWindowsUpdateCheck e =
     runTask e ''Checking for Windows Updates''
       (andThen (dateNowCall e) (\<lambda>t.
          let scriptPath = (tmpdir e, ''ps-script-'' @ showNat t @ ''.ps1'')
          in andThen (writeFile e scriptPath (updateScript e)) (\<lambda>u.
               andFinally
                 (andThen
                    (runCommand e ''powershell.exe''
                       [''-ExecutionPolicy'', ''Bypass'', ''-File'', pathStr e scriptPath])
                    (\<lambda>r w. (Ok (Some (trim (fst r))), w)))
                 (tryCatch (unlink e scriptPath)
                    (\<lambda>err. writeLog e (''Failed to delete temp script: '' @ message err) WARN)))))"

definition runWingetUpdates :: "env \<Rightarrow> bool action" where
  "runWingetUpdates e =
     runTask e ''Updating Winget Software''
       (andThen (runCommand e ''winget'' [''source'', ''update'']) (\<lambda>r w.
          (Ok None, emit (ConsoleLog (Some Yellow)
             (LF # ''  Use `winget upgrade` to view packages and `winget upgrade --all` to install all updates.'')) w)))"

definition runChocoUpdates :: "env \<Rightarrow> bool action" where
  "runChocoUpdates e =
     runTask e ''Updating Chocolatey Software''
       (andThen
          (tryCatch (runCommand e ''choco'' [''--version''])
             (\<lambda>error w. (Err (JSError
                ''Chocolatey is not installed or not in your PATH. Please install Chocolatey to use this feature.''), w)))
          (\<lambda>r. andThen (runCommand e ''choco'' [''outdated'']) (\<lambda>r2 w.
             (Ok None, emit (ConsoleLog (Some Yellow)
                (LF # ''  Use `choco upgrade all -y` to upgrade all outdated packages.'')) w))))"

definition runDismCheck :: "env \<Rightarrow> bool action" where
  "runDismCheck e =
     runTask e ''Checking DISM Health''
       (andThen (runCommand e ''Dism.exe'' [''/Online'', ''/Cleanup-Image'', ''/CheckHealth''])
          (\<lambda>r w. (Ok None, w)))"

definition sfcMessage :: string where
  "sfcMessage =
     ''sfc /scannow failed. This may indicate that Windows Resource Protection found integrity violations.''
     @ [LF] @ ''  Please check the CBS.log for more details: C:'' @ [BSL] @ ''Windows'' @ [BSL]
     @ ''Logs'' @ [BSL] @ ''CBS'' @ [BSL] @ ''CBS.log''"

definition runSfcScan :: "env \<Rightarrow> bool action" where
  "runSfcScan e =
     runTask e ''Running System File Checker (sfc /scannow)''
       (tryCatch
          (andThen (runCommand e ''sfc'' [''/scannow'']) (\<lambda>r w. (Ok None, w)))
          (\<lambda>error w.
             if includesStr (message error) ''exit code 1'' then (Err (JSError sfcMessage), w)
             else (Err error, w)))"

text \<open>
  The inner loop of the cleanup: the promise of \<^verbatim>\<open>fs.rm\<close> is awaited with a handler that
  calls the logger and drops its promise.
\<close>

fun sweep :: "env \<Rightarrow> string \<Rightarrow> string list \<Rightarrow> unit action" where
  "sweep e tempPath [] w = (Ok (), w)"
| "sweep e tempPath (file # rest) w =
     (case rm e (tempPath, file) w of
        (Err err, w1) \<Rightarrow>
          andThen
            (detached
               (writeLog e (''Could not delete '' @ pathStr e (tempPath, file) @ '': '' @ message err) WARN))
            (\<lambda>u. sweep e tempPath rest) w1
      | (r, w1) \<Rightarrow> sweep e tempPath rest w1)"

definition cleanFolder :: "env \<Rightarrow> string \<Rightarrow> unit action" where
  "cleanFolder e tempPath =
     tryCatch
       (andThen (writeLog e (''Cleaning folder: '' @ tempPath) INFO) (\<lambda>u.
          andThen (readdir e tempPath) (\<lambda>names. sweep e tempPath names)))
       (\<lambda>err. writeLog e (''Could not access temp path '' @ tempPath @ '': '' @ message err) WARN)"

definition windowsTemp :: string where
  "windowsTemp = ''C:'' @ [BSL] @ ''Windows'' @ [BSL] @ ''Temp''"

fun cleanFolders :: "env \<Rightarrow> string list \<Rightarrow> unit action" where
  "cleanFolders e [] w = (Ok (), w)"
| "cleanFolders e (tempPath # rest) w = andThen (cleanFolder e tempPath) (\<lambda>u. cleanFolders e rest) w"

definition runTempFileCleanup :: "env \<Rightarrow> bool action" where
  "runTempFileCleanup e =
     runTask e ''Cleaning Temporary Files''
       (andThen (cleanFolders e [tmpdir e, windowsTemp]) (\<lambda>u w. (Ok None, w)))"

definition runDiskOptimization :: "env \<Rightarrow> bool action" where
  "runDiskOptimization e =
     runTask e ''Optimizing System Drive (C:)''
       (andThen (runCommand e ''powershell.exe'' [''-Command'', ''Optimize-Volume -DriveLetter C''])
          (\<lambda>r w. (Ok None, w)))"

text \<open>
  The inventory does not go through \<open>runTask\<close>; it has the same shape, written out, and
  logs on both paths. \<^verbatim>\<open>JSON.parse\<close> and the rendering of the summary are the oracles
  \<open>parseErr\<close> and \<open>render\<close>.
\<close>

definition jsonParse :: "env \<Rightarrow> string \<Rightarrow> unit action" where
  "jsonParse e stdout w = (case parseErr e stdout of Some err \<Rightarrow> (Err err, w) | None \<Rightarrow> (Ok (), w))"

definition renderSummary :: "env \<Rightarrow> string \<Rightarrow> string action" where
  "renderSummary e stdout w = (case render e stdout of Inl err \<Rightarrow> (Err err, w) | Inr out \<Rightarrow> (Ok out, w))"

definition runHardwareCheck :: "env \<Rightarrow> bool action" where
  "runHardwareCheck e w =
     tryCatch
       (andThen (dateNowCall e) (\<lambda>t.
          let scriptPath = (tmpdir e, ''hw-info-'' @ showNat t @ ''.ps1'')
          in andThen (writeFile e scriptPath (inventoryScript e)) (\<lambda>u.
             andThen
               (runCommand e ''powershell.exe''
                  [''-ExecutionPolicy'', ''Bypass'', ''-File'', pathStr e scriptPath]) (\<lambda>r.
             andThen (jsonParse e (fst r)) (\<lambda>u1.
             andThen
               (tryCatch (unlink e scriptPath)
                  (\<lambda>err. writeLog e (''Failed to delete temp script: '' @ message err) WARN)) (\<lambda>u2.
             andThen (renderSummary e (fst r)) (\<lambda>output w1.
               andThen (writeLog e ''Gathered Hardware & OS Information'' INFO) (\<lambda>u3 w2. (Ok True, w2))
                 (emit (ConsoleLog None output)
                    (emit (SpinnerSucceed Green ''Gathered Hardware & OS Information'') w1)))))))))
       (\<lambda>error w1.
          andThen (writeLog e (''Hardware & OS Information failed: '' @ message error) ERROR)
            (\<lambda>u w2. (Ok False, w2))
            (emit (ConsoleError Red (''  '' @ indentLines (message error)))
               (emit (SpinnerFail Red ''Gathering Hardware & OS Information'') w1)))
       (emit (SpinnerStart ''Gathering Hardware & OS Information'') w)"

section \<open>The orchestrator\<close>

text \<open>The catalog, in declared order: key, display name, operation, default-selected flag.\<close>

definition tasks :: "(task_key \<times> string \<times> (env \<Rightarrow> bool action) \<times> bool) list" where
  "tasks =
     [(HwInfo, ''Gather Hardware & OS Information'', runHardwareCheck, True),
      (WinUpdate, ''Check for Windows Updates'', runWindowsUpdateCheck, True),
      (Winget, ''Update Winget Software'', runWingetUpdates, True),
      (Choco, ''Update Chocolatey Software'', runChocoUpdates, True),
      (Dism, ''Check DISM Health'', runDismCheck, True),
      (Sfc, ''Run System File Checker (SFC)'', runSfcScan, True),
      (Cleanup, ''Clean Temporary Files'', runTempFileCleanup, True),
      (Optimize, ''Optimize System Drive'', runDiskOptimization, False)]"

definition choices :: "choice list" where
  "choices = map (\<lambda>(key, name, task, checked). (name, key, checked)) tasks"

text \<open>
  The checkbox prompt answers with the values of the choices that are ticked when the user
  confirms, in the order of the choices.
\<close>

definition selectTasks :: "env \<Rightarrow> task_key list action" where
  "selectTasks e w =
     (if \<not> silent e then
        (case promptErr e of
           Some err \<Rightarrow> (Err err, emit (Prompt choices) w)
         | None \<Rightarrow> (Ok (map (\<lambda>c. fst (snd c)) (filter (ticked e) choices)), emit (Prompt choices) w))
      else (Ok (map fst tasks), w))"

fun runSelected :: "env \<Rightarrow> task_key list \<Rightarrow> unit action" where
  "runSelected e [] w = (Ok (), w)"
| "runSelected e (taskKey # rest) w =
     (case map_of tasks taskKey of
        Some (name, task, checked) \<Rightarrow> andThen (task e) (\<lambda>b. runSelected e rest) w
      | None \<Rightarrow> runSelected e rest w)"

definition main :: "env \<Rightarrow> unit action" where
  "main e w =
     andThen (writeLog e ''Script started.'' INFO) (\<lambda>u.
     andThen (checkAdmin e) (\<lambda>u1.
     andThen (selectTasks e) (\<lambda>tasksToRun w1.
       if tasksToRun = [] then
         (Ok (), emit (ConsoleLog (Some Yellow) ''No tasks selected. Exiting.'') w1)
       else
         andThen (runSelected e tasksToRun) (\<lambda>u2 w2.
           (Ok (), emit (ConsoleLog (Some Gray) (''Log file created at: '' @ pathStr e (logFile e)))
                     (emit (ConsoleLog (Some BoldGreen) (LF # ''=== MAINTENANCE COMPLETE ==='')) w2)))
           (emit (ConsoleLog None []) w1))))
       (emit (ConsoleLog (Some BoldCyan)
          (''=== Windows System Maintenance Tool (Node.js) ==='' @ [LF])) w)"

text \<open>
  How the process ends. A rejection nobody handles ends a Node.js process with status 1
  (the default since version 15): that of a dropped promise inside the run, or that of the
  handler of the module.
\<close>

datatype outcome = Exited nat | UnhandledRejection jserror | Hung


text \<open>The module: \<^verbatim>\<open>logFile\<close> reads the clock at tick 0, then \<^verbatim>\<open>main().catch(...)\<close>.\<close>

definition startWorld :: "(path \<times> string list) list \<Rightarrow> world" where
  "startWorld fs = \<lparr>trace = [], files = fs, tick = 1\<rparr>"

definition program :: "env \<Rightarrow> (path \<times> string list) list \<Rightarrow> outcome \<times> world" where
  "program e fs =
     (case main e (startWorld fs) of
        (Ok u, w1) \<Rightarrow> (Exited 0, w1)
      | (Stop (ProcessExit n), w1) \<Rightarrow> (Exited n, w1)
      | (Stop NeverSettles, w1) \<Rightarrow> (Hung, w1)
      | (Stop (Unhandled err), w1) \<Rightarrow> (UnhandledRejection err, w1)
      | (Err err, w1) \<Rightarrow>
          (case writeLog e (''Critical script error: '' @ message err) ERROR
                  (emit (ConsoleError Red (LF # ''CRITICAL ERROR: '' @ message err)) w1) of
             (Ok u, w2) \<Rightarrow> (Exited 1, w2)
           | (Err err2, w2) \<Rightarrow> (UnhandledRejection err2, w2)
           | (Stop (ProcessExit n), w2) \<Rightarrow> (Exited n, w2)
           | (Stop NeverSettles, w2) \<Rightarrow> (Hung, w2)
           | (Stop (Unhandled err2), w2) \<Rightarrow> (UnhandledRejection err2, w2)))"

section \<open>Observations on a run\<close>

text \<open>What a list of child-process events writes to the two streams.\<close>

fun isData :: "proc_event \<Rightarrow> bool" where
  "isData (StdoutData d) = True"
| "isData (StderrData d) = True"
| "isData (Close code) = False"
| "isData (ErrorEvent er) = False"

fun stdoutOf :: "proc_event \<Rightarrow> string" where
  "stdoutOf (StdoutData d) = d"
| "stdoutOf ev = []"

fun stderrOf :: "proc_event \<Rightarrow> string" where
  "stderrOf (StderrData d) = d"
| "stderrOf ev = []"

definition stdoutText :: "proc_event list \<Rightarrow> string" where
  "stdoutText evs = concat (map stdoutOf evs)"

definition stderrText :: "proc_event list \<Rightarrow> string" where
  "stderrText evs = concat (map stderrOf evs)"

text \<open>Projections of the trace: spinners started, processes spawned, chunks appended, removals.\<close>

fun startOf :: "event \<Rightarrow> string list" where
  "startOf (SpinnerStart t) = [t]"
| "startOf ev = []"

fun spawnOf :: "event \<Rightarrow> (string \<times> string list) list" where
  "spawnOf (Spawn c a) = [(c, a)]"
| "spawnOf ev = []"

fun appendOf :: "event \<Rightarrow> (path \<times> string) list" where
  "appendOf (AppendFile p d) = [(p, d)]"
| "appendOf ev = []"

fun rmOf :: "event \<Rightarrow> path list" where
  "rmOf (Rm p) = [p]"
| "rmOf ev = []"

definition started :: "world \<Rightarrow> string list" where
  "started w = concat (map startOf (trace w))"

definition spawned :: "world \<Rightarrow> (string \<times> string list) list" where
  "spawned w = concat (map spawnOf (trace w))"

definition appended :: "world \<Rightarrow> (path \<times> string) list" where
  "appended w = concat (map appendOf (trace w))"

definition removals :: "world \<Rightarrow> path list" where
  "removals w = concat (map rmOf (trace w))"

text \<open>The title under which the operation of a catalog entry starts its spinner.\<close>

fun titleOf :: "task_key \<Rightarrow> string" where
  "titleOf HwInfo = ''Gathering Hardware & OS Information''"
| "titleOf WinUpdate = ''Checking for Windows Updates''"
| "titleOf Winget = ''Updating Winget Software''"
| "titleOf Choco = ''Updating Chocolatey Software''"
| "titleOf Dism = ''Checking DISM Health''"
| "titleOf Sfc = ''Running System File Checker (sfc /scannow)''"
| "titleOf Cleanup = ''Cleaning Temporary Files''"
| "titleOf Optimize = ''Optimizing System Drive (C:)''"

text \<open>Properties of an action that hold from every world.\<close>

definition noStop :: "'a action \<Rightarrow> bool" where
  "noStop m \<longleftrightarrow> (\<forall>w s. fst (m w) \<noteq> Stop s)"

definition returns :: "'a action \<Rightarrow> bool" where
  "returns m \<longleftrightarrow> (\<forall>w. \<exists>a. fst (m w) = Ok a)"

definition noStart :: "event \<Rightarrow> bool" where
  "noStart ev = (startOf ev = [])"

text \<open>The action only adds events to the trace, and all of them satisfy \<open>P\<close>.\<close>

definition adds :: "(event \<Rightarrow> bool) \<Rightarrow> 'a action \<Rightarrow> bool" where
  "adds P m \<longleftrightarrow> (\<forall>w. \<exists>tr. trace (snd (m w)) = trace w @ tr \<and> list_all P tr)"

text \<open>An environment whose log can always be appended to, and whose commands all end.\<close>

definition appendsOk :: "env \<Rightarrow> bool" where
  "appendsOk e \<longleftrightarrow> (\<forall>t. appendErr e t = None)"

definition commandsEnd :: "env \<Rightarrow> bool" where
  "commandsEnd e \<longleftrightarrow> (\<forall>command args. promiseOf (spawnEvents e command args) \<noteq> None)"


definition probeOk :: "env \<Rightarrow> bool" where
  "probeOk e =
     (case promiseOf (spawnEvents e ''net'' [''session'']) of Some (Ok r) \<Rightarrow> True | r \<Rightarrow> False)"



text \<open>The keys the orchestrator iterates over.\<close>

definition selection :: "env \<Rightarrow> task_key list" where
  "selection e =
     (if silent e then map fst tasks else map (\<lambda>c. fst (snd c)) (filter (ticked e) choices))"

text \<open>
  The entries of a directory that \<^verbatim>\<open>fs.rm\<close> fails to remove, and the log entries the sweep
  writes for them when it starts at tick \<open>t\<close>: one for each, two ticks apart.
\<close>

definition undeletable :: "env \<Rightarrow> string \<Rightarrow> string \<Rightarrow> bool" where
  "undeletable e dir name = (rmErr e (dir, name) \<noteq> None)"

fun warnLines :: "env \<Rightarrow> string \<Rightarrow> nat \<Rightarrow> string list \<Rightarrow> (path \<times> string) list" where
  "warnLines e dir t [] = []"
| "warnLines e dir t (name # names) =
     (logFile e,
      logEntry (clock e t) WARN
        (''Could not delete '' @ pathStr e (dir, name) @ '': ''
           @ (case rmErr e (dir, name) of Some err \<Rightarrow> message err | None \<Rightarrow> []))
        (eol e))
     # warnLines e dir (t + 2) names"

section \<open>Reading the log back\<close>

text \<open>
  Modelled from the spec: the repository has no reader of its log file. The reader takes
  the first line of a text (up to the first carriage return or line feed) and splits it by
  the format \<^verbatim>\<open><timestamp> [<LEVEL>] <message>\<close>: the timestamp ends at the first space, the
  level stands between the brackets, the message is the rest of the line.
\<close>

definition firstLine :: "string \<Rightarrow> string" where
  "firstLine s = takeWhile (\<lambda>c. c \<noteq> CR \<and> c \<noteq> LF) s"

definition parseLevel :: "string \<Rightarrow> level option" where
  "parseLevel s =
     (if s = ''INFO'' then Some INFO else if s = ''WARN'' then Some WARN
      else if s = ''ERROR'' then Some ERROR else None)"

definition parseLine :: "string \<Rightarrow> (string \<times> level \<times> string) option" where
  "parseLine line =
     (let timestamp = takeWhile (\<lambda>c. c \<noteq> CHR '' '') line;
          afterStamp = drop (length timestamp) line
      in if startsWith afterStamp '' [''
         then (let fromLevel = drop 2 afterStamp;
                   lvl = takeWhile (\<lambda>c. c \<noteq> CHR '']'') fromLevel;
                   afterLevel = drop (length lvl) fromLevel
               in if startsWith afterLevel ''] ''
                  then (case parseLevel lvl of
                          Some l \<Rightarrow> Some (timestamp, l, drop 2 afterLevel)
                        | None \<Rightarrow> None)
                  else None)
         else None)"

definition parseEntry :: "string \<Rightarrow> (string \<times> level \<times> string) option" where
  "parseEntry s = parseLine (firstLine s)"

section \<open>Sample environments\<close>

text \<open>
  A silent run on a machine where every command exits with status 0 and no file-system
  call fails, and variations of it.
\<close>

definition quietEnv :: env where
  "quietEnv =
     \<lparr>silent = True, tmpdir = ''T'', sep = [BSL], eol = [CR, LF],
      clock = (\<lambda>t. ''2024-05-06T07:08:09.000Z''), dateNow = (\<lambda>t. 1714979289000),
      appendErr = (\<lambda>t. None), writeFileErr = (\<lambda>p. None), unlinkErr = (\<lambda>p. None),
      readdirErr = (\<lambda>d. None), rmErr = (\<lambda>p. None), nameRank = (\<lambda>n. 0),
      spawnEvents = (\<lambda>command args. [StdoutData ''ok'', Close (Some 0)]),
      promptErr = None, ticked = (\<lambda>c. snd (snd c)),
      updateScript = ''update'', inventoryScript = ''inventory'',
      parseErr = (\<lambda>s. None), render = (\<lambda>s. Inr ''summary'')\<rparr>"

text \<open>The log file cannot be appended to.\<close>

definition brokenLogEnv :: env where
  "brokenLogEnv = quietEnv\<lparr>appendErr := (\<lambda>t. Some (JSError ''EACCES: permission denied''))\<rparr>"

text \<open>Every command exits with status 1 after writing to its error stream.\<close>

definition failingEnv :: env where
  "failingEnv = quietEnv\<lparr>spawnEvents := (\<lambda>command args. [StderrData ''denied'', Close (Some 1)])\<rparr>"

text \<open>Commands fail and the log cannot be appended to.\<close>

definition failingBrokenLogEnv :: env where
  "failingBrokenLogEnv = failingEnv\<lparr>appendErr := (\<lambda>t. Some (JSError ''EACCES: permission denied''))\<rparr>"

text \<open>The temporary directory cannot be enumerated.\<close>

definition unreadableEnv :: env where
  "unreadableEnv = quietEnv\<lparr>readdirErr := (\<lambda>d. Some (JSError ''EPERM: operation not permitted''))\<rparr>"

text \<open>The shell cannot be spawned.\<close>

definition noShellEnv :: env where
  "noShellEnv =
     quietEnv\<lparr>spawnEvents := (\<lambda>command args. [ErrorEvent (JSError ''spawn ENOENT''), Close (Some (- 2))])\<rparr>"

text \<open>The first appends to the log fail, the later ones succeed.\<close>

definition flakyLogEnv :: env where
  "flakyLogEnv = quietEnv\<lparr>appendErr := (\<lambda>t. if t < 5 then Some (JSError ''EBUSY: resource busy'') else None)\<rparr>"

text \<open>Two entries of the temporary directory cannot be removed.\<close>

definition lockedEnv :: env where
  "lockedEnv =
     quietEnv\<lparr>rmErr := (\<lambda>p. if snd p = ''a'' \<or> snd p = ''c''
                               then Some (JSError ''EPERM: operation not permitted'') else None)\<rparr>"


text \<open>
  Commands fail; the log can be appended to until tick 3 and no longer from tick 4 on.
\<close>

definition lateBrokenEnv :: env where
  "lateBrokenEnv =
     failingEnv\<lparr>appendErr := (\<lambda>t. if t < 4 then None else Some (JSError ''ENOSPC: no space left on device''))\<rparr>"

text \<open>An interactive run in which the user confirms the defaults.\<close>

definition interactiveEnv :: env where
  "interactiveEnv = quietEnv\<lparr>silent := False\<rparr>"

section \<open>Basic facts\<close>

lemma emit_simps [simp]:
  "trace (emit ev w) = trace w @ [ev]"
  "files (emit ev w) = files w"
  "tick (emit ev w) = tick w"
  by (simp_all add: emit_def)

lemma started_emit [simp]: "started (emit ev w) = started w @ startOf ev"
  by (simp add: started_def)

lemma spawned_emit [simp]: "spawned (emit ev w) = spawned w @ spawnOf ev"
  by (simp add: spawned_def)

lemma appended_emit [simp]: "appended (emit ev w) = appended w @ appendOf ev"
  by (simp add: appended_def)

lemma removals_emit [simp]: "removals (emit ev w) = removals w @ rmOf ev"
  by (simp add: removals_def)

lemma obs_update [simp]:
  "started (w\<lparr>files := fs\<rparr>) = started w" "started (w\<lparr>tick := t\<rparr>) = started w"
  "spawned (w\<lparr>files := fs\<rparr>) = spawned w" "spawned (w\<lparr>tick := t\<rparr>) = spawned w"
  "appended (w\<lparr>files := fs\<rparr>) = appended w" "appended (w\<lparr>tick := t\<rparr>) = appended w"
  "removals (w\<lparr>files := fs\<rparr>) = removals w" "removals (w\<lparr>tick := t\<rparr>) = removals w"
  by (simp_all add: started_def spawned_def appended_def removals_def)

lemma writeLog_unfold:
  "writeLog e msg lvl w =
     (case appendErr e (Suc (tick w)) of
        None \<Rightarrow>
          (Ok (), w\<lparr>trace := trace w @ [AppendFile (logFile e) (logEntry (clock e (tick w)) lvl msg (eol e))],
                    tick := Suc (Suc (tick w)),
                    files := appendChunk (logFile e) (logEntry (clock e (tick w)) lvl msg (eol e)) (files w)\<rparr>)
      | Some err \<Rightarrow>
          (Err err, w\<lparr>trace := trace w @ [AppendFile (logFile e) (logEntry (clock e (tick w)) lvl msg (eol e))],
                      tick := Suc (Suc (tick w))\<rparr>))"
  by (simp add: writeLog_def andThen_def toISOString_def appendFile_def emit_def Let_def
           split: option.split)

section \<open>The process invoker settles with the first closing event\<close>

lemma foldl_data:
  "list_all isData ds \<Longrightarrow>
   foldl onEvent (out, err, p) ds = (out @ stdoutText ds, err @ stderrText ds, p)"
proof (induction ds arbitrary: out err)
  case Nil
  then show ?case by (simp add: stdoutText_def stderrText_def)
next
  case (Cons d ds)
  then show ?case by (cases d) (simp_all add: stdoutText_def stderrText_def)
qed

lemma settled_stays: "snd (snd (foldl onEvent (out, err, Some r) evs)) = Some r"
proof (induction evs arbitrary: out err)
  case Nil
  then show ?case by simp
next
  case (Cons ev evs)
  then show ?case by (cases ev) simp_all
qed

lemma promiseOf_first:
  assumes "list_all isData ds" "\<not> isData ev"
  shows "promiseOf (ds @ ev # rest) = snd (snd (onEvent (stdoutText ds, stderrText ds, None) ev))"
proof -
  have "foldl onEvent ([], [], None) (ds @ ev # rest)
      = foldl onEvent (onEvent (stdoutText ds, stderrText ds, None) ev) rest"
    using assms(1) by (simp add: foldl_data)
  moreover obtain out err r where "onEvent (stdoutText ds, stderrText ds, None) ev = (out, err, Some r)"
    using assms(2) by (cases ev) auto
  ultimately show ?thesis
    by (simp add: promiseOf_def settled_stays)
qed

text \<open>
  C3. When the events of the child are data chunks \<open>ds\<close> followed by a first closing event:
  a close with status 0 resolves the promise with the two accumulated texts; a close with
  any other code rejects it with an error whose message carries the code and the captured
  error text; an error event rejects it with that very error.
\<close>

theorem runCommand_outcomes:
  assumes "list_all isData ds"
  shows "(spawnEvents e command args = ds @ Close (Some 0) # rest \<longrightarrow>
            runCommand e command args w
              = (Ok (stdoutText ds, stderrText ds), emit (Spawn command args) w))
       \<and> (code \<noteq> Some 0 \<and> spawnEvents e command args = ds @ Close code # rest \<longrightarrow>
            runCommand e command args w
              = (Err (JSError (''Command failed with exit code '' @ showCode code @ [LF]
                                 @ stderrText ds)),
                 emit (Spawn command args) w))
       \<and> (spawnEvents e command args = ds @ ErrorEvent er # rest \<longrightarrow>
            runCommand e command args w = (Err er, emit (Spawn command args) w))"
  using assms by (simp add: runCommand_def promiseOf_first)

theorem runCommand_outcomes_witness:
  "runCommand quietEnv ''net'' [''session''] (startWorld [])
     = (Ok (''ok'', []), emit (Spawn ''net'' [''session'']) (startWorld []))
   \<and> runCommand failingEnv ''net'' [''session''] (startWorld [])
     = (Err (JSError (''Command failed with exit code 1'' @ [LF] @ ''denied'')),
        emit (Spawn ''net'' [''session'']) (startWorld []))
   \<and> runCommand noShellEnv ''net'' [''session''] (startWorld [])
     = (Err (JSError ''spawn ENOENT''), emit (Spawn ''net'' [''session'']) (startWorld []))"
proof -
  have a: "list_all isData [StdoutData ''ok'']" and b: "list_all isData [StderrData ''denied'']"
    and c: "list_all isData []"
    by simp_all
  have one: "showCode (Some 1) = ''1''"
    by code_simp
  show ?thesis
    using runCommand_outcomes [OF a, where e = quietEnv and command = "''net''"
          and args = "[''session'']" and rest = "[]" and w = "startWorld []"]
      runCommand_outcomes [OF b, where e = failingEnv and command = "''net''"
          and args = "[''session'']" and rest = "[]" and code = "Some 1" and w = "startWorld []"]
      runCommand_outcomes [OF c, where e = noShellEnv and command = "''net''"
          and args = "[''session'']" and er = "JSError ''spawn ENOENT''"
          and rest = "[Close (Some (- 2))]" and w = "startWorld []"]
    by (simp add: quietEnv_def failingEnv_def noShellEnv_def stdoutText_def stderrText_def one)
qed

section \<open>The logger raises what the append raises\<close>

text \<open>
  C6, as the code has it. The logger reads the clock and appends one chunk to the log file.
  When the append succeeds it returns; when the append fails with an error, the logger
  fails with that same error, and in both cases the only thing it does to the outside is the
  append: nothing is written to the terminal.
\<close>

theorem writeLog_outcome:
  "(appendErr e (Suc (tick w)) = None \<longrightarrow> fst (writeLog e msg lvl w) = Ok ()
      \<and> files (snd (writeLog e msg lvl w))
          = appendChunk (logFile e) (logEntry (clock e (tick w)) lvl msg (eol e)) (files w))
   \<and> (appendErr e (Suc (tick w)) = Some err \<longrightarrow> fst (writeLog e msg lvl w) = Err err
      \<and> files (snd (writeLog e msg lvl w)) = files w)
   \<and> trace (snd (writeLog e msg lvl w))
       = trace w @ [AppendFile (logFile e) (logEntry (clock e (tick w)) lvl msg (eol e))]"
  by (simp add: writeLog_unfold split: option.split)

theorem writeLog_outcome_witness:
  "fst (writeLog quietEnv ''Script started.'' INFO (startWorld [])) = Ok ()
   \<and> fst (writeLog brokenLogEnv ''Script started.'' INFO (startWorld []))
       = Err (JSError ''EACCES: permission denied'')"
  using writeLog_outcome [of quietEnv "startWorld []" "''Script started.''" INFO undefined]
    writeLog_outcome [of brokenLogEnv "startWorld []" "''Script started.''" INFO
      "JSError ''EACCES: permission denied''"]
  by (simp add: quietEnv_def brokenLogEnv_def)

theorem writeLog_raises_counterexample:
  "fst (writeLog brokenLogEnv ''Checking DISM Health failed: x'' ERROR (startWorld []))
     = Err (JSError ''EACCES: permission denied'')"
  by (simp add: writeLog_unfold brokenLogEnv_def quietEnv_def)

section \<open>The task wrapper\<close>

lemma splitLF_nonempty [simp]: "splitLF s \<noteq> []"
  by (induction s) (auto split: list.split)

lemma splitLF_prefix:
  "LF \<notin> set p \<Longrightarrow> splitLF (p @ s) = (p @ hd (splitLF s)) # tl (splitLF s)"
proof (induction p)
  case Nil
  then show ?case by simp
next
  case (Cons c p)
  then show ?case by auto
qed

lemma splitLF_indentLines:
  "splitLF (indentLines s) = hd (splitLF s) # map (\<lambda>l. ''  '' @ l) (tl (splitLF s))"
proof (induction s)
  case Nil
  then show ?case by (simp add: indentLines_def)
next
  case (Cons c cs)
  have ne: "splitLF cs \<noteq> []" by simp
  show ?case
  proof (cases "c = LF")
    case True
    have "indentLines (c # cs) = LF # (''  '' @ indentLines cs)"
      using True by (simp add: indentLines_def)
    moreover have "LF \<notin> set ''  ''" by (simp add: LF_def)
    ultimately have "splitLF (indentLines (c # cs))
        = [] # (''  '' @ hd (splitLF (indentLines cs))) # tl (splitLF (indentLines cs))"
      using splitLF_prefix [of "''  ''" "indentLines cs"] by simp
    also have "\<dots> = [] # map (\<lambda>l. ''  '' @ l) (splitLF cs)"
      using ne Cons.IH by (cases "splitLF cs") simp_all
    finally show ?thesis using True by simp
  next
    case False
    have "indentLines (c # cs) = c # indentLines cs"
      using False by (simp add: indentLines_def)
    then show ?thesis
      using False Cons.IH ne by (cases "splitLF cs") simp_all
  qed
qed

lemma indented_lines:
  "splitLF (''  '' @ indentLines s) = map (\<lambda>l. ''  '' @ l) (splitLF s)"
proof -
  have "LF \<notin> set ''  ''" by (simp add: LF_def)
  then have "splitLF (''  '' @ indentLines s)
      = (''  '' @ hd (splitLF (indentLines s))) # tl (splitLF (indentLines s))"
    by (rule splitLF_prefix)
  then show ?thesis
    by (cases "splitLF s") (simp_all add: splitLF_indentLines)
qed

lemma runTask_Err:
  assumes "task (emit (SpinnerStart title) w) = (Err error, w1)"
  shows "runTask e title task w
       = andThen (writeLog e (title @ '' failed: '' @ message error) ERROR) (\<lambda>u w2. (Ok False, w2))
           (emit (ConsoleError Red (''  '' @ indentLines (message error)))
              (emit (SpinnerFail Red title) w1))"
  using assms by (simp add: runTask_def tryCatch_def andThen_def)

lemma runTask_Ok:
  assumes "task (emit (SpinnerStart title) w) = (Ok result, w1)"
  shows "runTask e title task w
       = (Ok True, emit (SpinnerSucceed Green
             (case result of
                Some m \<Rightarrow> if m \<noteq> [] then title @ '' - '' @ m else title
              | None \<Rightarrow> title)) w1)"
  using assms by (simp add: runTask_def tryCatch_def andThen_def)

lemma runTask_Stop:
  assumes "task (emit (SpinnerStart title) w) = (Stop s, w1)"
  shows "runTask e title task w = (Stop s, w1)"
  using assms by (simp add: runTask_def tryCatch_def andThen_def)

text \<open>
  C1, as the code has it. When the operation fails with an error, the wrapper reports the
  failure, prints the message with two spaces before each of its lines, and appends one
  ERROR entry \<^verbatim>\<open><title> failed: <message>\<close>. If that append succeeds it returns false; if
  the append fails, the wrapper itself fails with the error of the append.
\<close>

theorem runTask_failure:
  assumes "task (emit (SpinnerStart title) w) = (Err error, w1)"
  shows "(appendErr e (Suc (tick w1)) = None \<longrightarrow>
            runTask e title task w
              = (Ok False,
                 w1\<lparr>trace := trace w1 @
                       [SpinnerFail Red title,
                        ConsoleError Red (''  '' @ indentLines (message error)),
                        AppendFile (logFile e)
                          (logEntry (clock e (tick w1)) ERROR
                             (title @ '' failed: '' @ message error) (eol e))],
                     tick := Suc (Suc (tick w1)),
                     files := appendChunk (logFile e)
                          (logEntry (clock e (tick w1)) ERROR
                             (title @ '' failed: '' @ message error) (eol e)) (files w1)\<rparr>))
       \<and> (appendErr e (Suc (tick w1)) = Some err \<longrightarrow>
            fst (runTask e title task w) = Err err)
       \<and> splitLF (''  '' @ indentLines (message error))
            = map (\<lambda>l. ''  '' @ l) (splitLF (message error))"
proof -
  have step: "runTask e title task w
       = andThen (writeLog e (title @ '' failed: '' @ message error) ERROR) (\<lambda>u w2. (Ok False, w2))
           (emit (ConsoleError Red (''  '' @ indentLines (message error)))
              (emit (SpinnerFail Red title) w1))"
    using assms by (rule runTask_Err)
  have ok: "appendErr e (Suc (tick w1)) = None \<longrightarrow>
            runTask e title task w
              = (Ok False,
                 w1\<lparr>trace := trace w1 @
                       [SpinnerFail Red title,
                        ConsoleError Red (''  '' @ indentLines (message error)),
                        AppendFile (logFile e)
                          (logEntry (clock e (tick w1)) ERROR
                             (title @ '' failed: '' @ message error) (eol e))],
                     tick := Suc (Suc (tick w1)),
                     files := appendChunk (logFile e)
                          (logEntry (clock e (tick w1)) ERROR
                             (title @ '' failed: '' @ message error) (eol e)) (files w1)\<rparr>)"
    by (simp add: step andThen_def writeLog_unfold emit_def)
  have bad: "appendErr e (Suc (tick w1)) = Some err \<longrightarrow> fst (runTask e title task w) = Err err"
    by (simp add: step andThen_def writeLog_unfold emit_def)
  show ?thesis
    using ok bad indented_lines [of "message error"] by blast
qed

theorem runTask_failure_witness:
  "fst (runDismCheck failingEnv (startWorld [])) = Ok False
   \<and> appended (snd (runDismCheck failingEnv (startWorld [])))
       = [(logFile failingEnv,
           ''2024-05-06T07:08:09.000Z [ERROR] Checking DISM Health failed: Command failed with exit code 1''
           @ [LF] @ ''denied'' @ [CR, LF])]
   \<and> splitLF (''  '' @ indentLines (''Command failed with exit code 1'' @ [LF] @ ''denied''))
       = [''  Command failed with exit code 1'', ''  denied'']"
proof -
  let ?op = "andThen (runCommand failingEnv ''Dism.exe''
                       [''/Online'', ''/Cleanup-Image'', ''/CheckHealth'']) (\<lambda>r w. (Ok None, w))"
  let ?w1 = "emit (Spawn ''Dism.exe'' [''/Online'', ''/Cleanup-Image'', ''/CheckHealth''])
               (emit (SpinnerStart ''Checking DISM Health'') (startWorld []))"
  let ?m = "''Command failed with exit code 1'' @ [LF] @ ''denied''"
  have one: "showCode (Some 1) = ''1''"
    by code_simp
  have h: "?op (emit (SpinnerStart ''Checking DISM Health'') (startWorld [])) = (Err (JSError ?m), ?w1)"
    by (simp add: andThen_def runCommand_def promiseOf_def one failingEnv_def quietEnv_def)
  note T = runTask_failure [where e = failingEnv and title = "''Checking DISM Health''"
        and task = ?op and w = "startWorld []" and error = "JSError ?m" and ?w1.0 = ?w1, OF h]
  have r: "runDismCheck failingEnv (startWorld [])
        = (Ok False,
           ?w1\<lparr>trace := trace ?w1 @
                 [SpinnerFail Red ''Checking DISM Health'',
                  ConsoleError Red (''  '' @ indentLines (message (JSError ?m))),
                  AppendFile (logFile failingEnv)
                    (logEntry (clock failingEnv (tick ?w1)) ERROR
                       (''Checking DISM Health'' @ '' failed: '' @ message (JSError ?m)) (eol failingEnv))],
               tick := Suc (Suc (tick ?w1)),
               files := appendChunk (logFile failingEnv)
                    (logEntry (clock failingEnv (tick ?w1)) ERROR
                       (''Checking DISM Health'' @ '' failed: '' @ message (JSError ?m)) (eol failingEnv))
                    (files ?w1)\<rparr>)"
    unfolding runDismCheck_def
    by (rule T [THEN conjunct1, THEN mp]) (simp add: failingEnv_def quietEnv_def)
  have a: "fst (runDismCheck failingEnv (startWorld [])) = Ok False"
    by (simp only: r fst_conv)
  have b: "appended (snd (runDismCheck failingEnv (startWorld [])))
       = [(logFile failingEnv,
           ''2024-05-06T07:08:09.000Z [ERROR] Checking DISM Health failed: Command failed with exit code 1''
           @ [LF] @ ''denied'' @ [CR, LF])]"
    unfolding r by (simp add: appended_def logEntry_def startWorld_def failingEnv_def quietEnv_def)
  have "splitLF (''  '' @ indentLines ?m) = map (\<lambda>l. ''  '' @ l) (splitLF (message (JSError ?m)))"
    using T [THEN conjunct2, THEN conjunct2] by (simp only: jserror.sel)
  also have "\<dots> = [''  Command failed with exit code 1'', ''  denied'']"
    by (simp add: LF_def)
  finally show ?thesis
    using a b by blast
qed

theorem runTask_raises_counterexample:
  "fst (runDismCheck failingBrokenLogEnv (startWorld []))
     = Err (JSError ''EACCES: permission denied'')"
  by (simp add: runDismCheck_def runTask_def tryCatch_def andThen_def runCommand_def
        promiseOf_def writeLog_unfold failingBrokenLogEnv_def failingEnv_def quietEnv_def)

text \<open>
  C7 on a run. The DISM check with a command that exits with status 0: the wrapper reports
  success and returns true, and it has appended nothing to the log, which does not exist.
\<close>

theorem runTask_success_logs_nothing:
  "runDismCheck quietEnv (startWorld [])
     = (Ok True,
        \<lparr>trace = [SpinnerStart ''Checking DISM Health'',
                  Spawn ''Dism.exe'' [''/Online'', ''/Cleanup-Image'', ''/CheckHealth''],
                  SpinnerSucceed Green ''Checking DISM Health''],
         files = [], tick = 1\<rparr>)"
  by (simp add: runDismCheck_def runTask_def tryCatch_def andThen_def runCommand_def
        promiseOf_def quietEnv_def startWorld_def emit_def)

section \<open>Composed actions\<close>

subsection \<open>Actions that come back\<close>

lemma noStop_andThen: "noStop m \<Longrightarrow> (\<And>a. noStop (f a)) \<Longrightarrow> noStop (andThen m f)"
  unfolding noStop_def andThen_def
  by (auto split: prod.splits res.splits) (metis fst_conv)+

lemma noStop_tryCatch: "noStop m \<Longrightarrow> (\<And>err. noStop (h err)) \<Longrightarrow> noStop (tryCatch m h)"
  unfolding noStop_def tryCatch_def
  by (auto split: prod.splits res.splits) (metis fst_conv)+

lemma noStop_andFinally: "noStop m \<Longrightarrow> noStop f \<Longrightarrow> noStop (andFinally m f)"
  unfolding noStop_def andFinally_def
  by (auto split: prod.splits res.splits) (metis fst_conv)+

lemma noStop_pure: "noStop (\<lambda>w. (Ok a, g w))" "noStop (\<lambda>w. (Err err, g w))"
  by (simp_all add: noStop_def)

lemma noStop_after: "noStop m \<Longrightarrow> noStop (\<lambda>w. m (g w))"
  by (simp add: noStop_def)

lemma noStop_writeLog: "noStop (writeLog e msg lvl)"
  by (simp add: noStop_def writeLog_unfold split: option.split)

lemma noStop_fs:
  "noStop (writeFile e p d)" "noStop (unlink e p)" "noStop (readdir e dir)" "noStop (rm e p)"
  "noStop (dateNowCall e)" "noStop (jsonParse e out)" "noStop (renderSummary e out)"
  by (simp_all add: noStop_def writeFile_def unlink_def readdir_def rm_def dateNowCall_def
        jsonParse_def renderSummary_def Let_def split: option.split sum.split)

lemma settle_not_Stop:
  "p \<noteq> Some (Stop s) \<Longrightarrow> r \<noteq> Stop s \<Longrightarrow> settle p r \<noteq> Some (Stop s)"
  by (cases p) simp_all

lemma foldl_not_Stop:
  "p \<noteq> Some (Stop s) \<Longrightarrow> snd (snd (foldl onEvent (out, err, p) evs)) \<noteq> Some (Stop s)"
proof (induction evs arbitrary: out err p)
  case Nil
  then show ?case by simp
next
  case (Cons ev evs)
  then show ?case by (cases ev) (simp_all add: settle_not_Stop)
qed

lemma promiseOf_not_Stop: "promiseOf evs \<noteq> Some (Stop s)"
  by (simp add: promiseOf_def foldl_not_Stop)

lemma noStop_runCommand: "commandsEnd e \<Longrightarrow> noStop (runCommand e command args)"
  by (auto simp: noStop_def runCommand_def commandsEnd_def promiseOf_not_Stop split: option.split)

lemma returns_andThen: "returns m \<Longrightarrow> (\<And>a. returns (f a)) \<Longrightarrow> returns (andThen m f)"
  unfolding returns_def andThen_def
  by (auto split: prod.splits res.splits) (metis fst_conv res.distinct res.inject)+

lemma returns_tryCatch: "noStop m \<Longrightarrow> (\<And>err. returns (h err)) \<Longrightarrow> returns (tryCatch m h)"
  unfolding returns_def noStop_def tryCatch_def
  by (auto split: prod.splits res.splits) (metis fst_conv)+

lemma returns_pure: "returns (\<lambda>w. (Ok a, g w))"
  by (simp add: returns_def)

lemma returns_after: "returns m \<Longrightarrow> returns (\<lambda>w. m (g w))"
  by (simp add: returns_def)

lemma returns_writeLog: "appendsOk e \<Longrightarrow> returns (writeLog e msg lvl)"
  by (simp add: returns_def appendsOk_def writeLog_unfold)

lemma returns_noStop: "returns m \<Longrightarrow> noStop m"
  unfolding returns_def noStop_def by (metis res.distinct(3))


subsection \<open>What an action adds to the trace\<close>

lemma addsI:
  "(\<And>w. \<exists>tr. trace (snd (m w)) = trace w @ tr \<and> list_all P tr) \<Longrightarrow> adds P m"
  by (simp add: adds_def)

lemma addsD: "adds P m \<Longrightarrow> \<exists>tr. trace (snd (m w)) = trace w @ tr \<and> list_all P tr"
  by (simp add: adds_def)

lemma adds_andThen:
  assumes "adds P m" and "\<And>a. adds P (f a)"
  shows "adds P (andThen m f)"
proof (rule addsI)
  fix w
  obtain r w1 where mw: "m w = (r, w1)" by (cases "m w")
  obtain tr where tr: "trace w1 = trace w @ tr" "list_all P tr"
    using addsD [OF assms(1), of w] mw by auto
  show "\<exists>tr. trace (snd (andThen m f w)) = trace w @ tr \<and> list_all P tr"
  proof (cases r)
    case (Ok a)
    obtain tr' where "trace (snd (f a w1)) = trace w1 @ tr'" "list_all P tr'"
      using addsD [OF assms(2), of a w1] by auto
    then have "trace (snd (andThen m f w)) = trace w @ (tr @ tr') \<and> list_all P (tr @ tr')"
      using mw Ok tr by (simp add: andThen_def)
    then show ?thesis by blast
  next
    case (Err err)
    then show ?thesis using mw tr by (auto simp: andThen_def)
  next
    case (Stop s)
    then show ?thesis using mw tr by (auto simp: andThen_def)
  qed
qed

lemma adds_tryCatch:
  assumes "adds P m" and "\<And>err. adds P (h err)"
  shows "adds P (tryCatch m h)"
proof (rule addsI)
  fix w
  obtain r w1 where mw: "m w = (r, w1)" by (cases "m w")
  obtain tr where tr: "trace w1 = trace w @ tr" "list_all P tr"
    using addsD [OF assms(1), of w] mw by auto
  show "\<exists>tr. trace (snd (tryCatch m h w)) = trace w @ tr \<and> list_all P tr"
  proof (cases r)
    case (Ok a)
    then show ?thesis using mw tr by (auto simp: tryCatch_def)
  next
    case (Err err)
    obtain tr' where "trace (snd (h err w1)) = trace w1 @ tr'" "list_all P tr'"
      using addsD [OF assms(2), of err w1] by auto
    then have "trace (snd (tryCatch m h w)) = trace w @ (tr @ tr') \<and> list_all P (tr @ tr')"
      using mw Err tr by (simp add: tryCatch_def)
    then show ?thesis by blast
  next
    case (Stop s)
    then show ?thesis using mw tr by (auto simp: tryCatch_def)
  qed
qed

lemma adds_andFinally:
  assumes "adds P m" and "adds P f"
  shows "adds P (andFinally m f)"
proof (rule addsI)
  fix w
  obtain r w1 where mw: "m w = (r, w1)" by (cases "m w")
  obtain tr where tr: "trace w1 = trace w @ tr" "list_all P tr"
    using addsD [OF assms(1), of w] mw by auto
  obtain r2 w2 where fw: "f w1 = (r2, w2)" by (cases "f w1")
  obtain tr' where tr': "trace w2 = trace w1 @ tr'" "list_all P tr'"
    using addsD [OF assms(2), of w1] fw by auto
  have both: "trace w2 = trace w @ (tr @ tr') \<and> list_all P (tr @ tr')"
    using tr tr' by simp
  show "\<exists>tr. trace (snd (andFinally m f w)) = trace w @ tr \<and> list_all P tr"
  proof (cases "\<exists>s. r = Stop s")
    case True
    then show ?thesis using mw tr by (auto simp: andFinally_def)
  next
    case False
    then have "snd (andFinally m f w) = w2"
      using mw fw by (cases r; cases r2) (simp_all add: andFinally_def)
    then show ?thesis using both by metis
  qed
qed

lemma adds_pure: "adds P (\<lambda>w. (r, w))"
  by (simp add: adds_def)

lemma adds_emit: "P ev \<Longrightarrow> adds P (\<lambda>w. (r, emit ev w))"
  by (simp add: adds_def)

lemma adds_emit2: "P ev1 \<Longrightarrow> P ev2 \<Longrightarrow> adds P (\<lambda>w. (r, emit ev2 (emit ev1 w)))"
  by (simp add: adds_def)

lemma adds_after:
  assumes "P ev" and "adds P m"
  shows "adds P (\<lambda>w. m (emit ev w))"
proof (rule addsI)
  fix w
  obtain tr where "trace (snd (m (emit ev w))) = trace (emit ev w) @ tr" "list_all P tr"
    using addsD [OF assms(2), of "emit ev w"] by auto
  then have "trace (snd (m (emit ev w))) = trace w @ (ev # tr) \<and> list_all P (ev # tr)"
    using assms(1) by simp
  then show "\<exists>tr. trace (snd (m (emit ev w))) = trace w @ tr \<and> list_all P tr" by blast
qed

lemma adds_mono: "adds P m \<Longrightarrow> (\<And>ev. P ev \<Longrightarrow> Q ev) \<Longrightarrow> adds Q m"
  unfolding adds_def by (metis (mono_tags, lifting) list.pred_mono_strong)

lemma adds_member: "adds P m \<Longrightarrow> ev \<in> set (trace w) \<Longrightarrow> ev \<in> set (trace (snd (m w)))"
  unfolding adds_def by (metis Un_iff set_append)

lemma noStart_concat: "list_all noStart tr \<Longrightarrow> concat (map startOf tr) = []"
  by (induction tr) (simp_all add: noStart_def)

lemma adds_started: "adds noStart m \<Longrightarrow> started (snd (m w)) = started w"
  unfolding adds_def started_def by (metis append_Nil2 concat_append map_append noStart_concat)

lemma noStart_simps [simp]:
  "noStart (SpinnerSucceed c t)" "noStart (SpinnerFail c t)" "noStart (ConsoleLog co t)"
  "noStart (ConsoleError c t)" "noStart (Spawn cmd args)" "noStart (AppendFile p d)"
  "noStart (WriteFile p d)" "noStart (Unlink p)" "noStart (Readdir dir)" "noStart (Rm p)"
  "noStart (Prompt cs)" "\<not> noStart (SpinnerStart t)"
  by (simp_all add: noStart_def)

lemma adds_writeLog: "adds noStart (writeLog e msg lvl)"
  by (simp add: adds_def writeLog_unfold split: option.split)

lemma adds_fs:
  "adds noStart (writeFile e p d)" "adds noStart (unlink e p)" "adds noStart (readdir e dir)"
  "adds noStart (rm e p)" "adds noStart (dateNowCall e)" "adds noStart (jsonParse e out)"
  "adds noStart (renderSummary e out)"
  by (simp_all add: adds_def writeFile_def unlink_def readdir_def rm_def dateNowCall_def
        jsonParse_def renderSummary_def Let_def split: option.split sum.split)

lemma adds_runCommand: "adds noStart (runCommand e command args)"
  by (simp add: adds_def runCommand_def split: option.split)


subsection \<open>The sweep of one folder\<close>

lemma rm_unfold:
  "rm e p w = (case rmErr e p of
       Some err \<Rightarrow> (Err err, emit (Rm p) w)
     | None \<Rightarrow> (Ok (), (emit (Rm p) w)\<lparr>files := removeTree e p (files w)\<rparr>))"
  by (simp add: rm_def Let_def split: option.split)

lemma sweep_Cons:
  "sweep e dir (name # names) w =
     (case rmErr e (dir, name) of
        Some err \<Rightarrow>
          andThen
            (detached
               (writeLog e (''Could not delete '' @ pathStr e (dir, name) @ '': '' @ message err) WARN))
            (\<lambda>u. sweep e dir names) (emit (Rm (dir, name)) w)
      | None \<Rightarrow> sweep e dir names ((emit (Rm (dir, name)) w)\<lparr>files := removeTree e (dir, name) (files w)\<rparr>))"
  by (simp add: rm_unfold split: option.split)

declare sweep.simps(2) [simp del]

lemma detached_writeLog:
  "detached (writeLog e msg lvl) w =
     (case appendErr e (Suc (tick w)) of
        None \<Rightarrow> (Ok (), snd (writeLog e msg lvl w))
      | Some err \<Rightarrow> (Stop (Unhandled err), snd (writeLog e msg lvl w)))"
  by (simp add: detached_def writeLog_unfold split: option.split)

lemma adds_detached: "adds noStart (detached (writeLog e msg lvl))"
  by (simp add: adds_def detached_writeLog writeLog_unfold split: option.split)

lemma noStop_detached: "appendsOk e \<Longrightarrow> noStop (detached (writeLog e msg lvl))"
  by (simp add: noStop_def detached_writeLog appendsOk_def)

lemma adds_sweep: "adds noStart (sweep e dir names)"
proof (induction names)
  case Nil
  have "sweep e dir [] = (\<lambda>w. (Ok (), w))"
    by (rule ext) simp
  then show ?case by (simp add: adds_pure)
next
  case (Cons name names)
  show ?case
  proof (rule addsI)
    fix w
    show "\<exists>tr. trace (snd (sweep e dir (name # names) w)) = trace w @ tr \<and> list_all noStart tr"
    proof (cases "rmErr e (dir, name)")
      case None
      let ?w1 = "(emit (Rm (dir, name)) w)\<lparr>files := removeTree e (dir, name) (files w)\<rparr>"
      obtain tr where "trace (snd (sweep e dir names ?w1)) = trace ?w1 @ tr" "list_all noStart tr"
        using addsD [OF Cons.IH, of ?w1] by blast
      then have "trace (snd (sweep e dir (name # names) w)) = trace w @ (Rm (dir, name) # tr)
          \<and> list_all noStart (Rm (dir, name) # tr)"
        using None by (simp add: sweep_Cons)
      then show ?thesis by blast
    next
      case (Some err)
      let ?next = "andThen
            (detached
               (writeLog e (''Could not delete '' @ pathStr e (dir, name) @ '': '' @ message err) WARN))
            (\<lambda>u. sweep e dir names)"
      let ?w1 = "emit (Rm (dir, name)) w"
      have "adds noStart ?next"
        by (intro adds_andThen adds_detached Cons.IH)
      then obtain tr where "trace (snd (?next ?w1)) = trace ?w1 @ tr" "list_all noStart tr"
        using addsD [of noStart ?next ?w1] by blast
      then have "trace (snd (sweep e dir (name # names) w)) = trace w @ (Rm (dir, name) # tr)
          \<and> list_all noStart (Rm (dir, name) # tr)"
        using Some by (simp add: sweep_Cons)
      then show ?thesis by blast
    qed
  qed
qed

lemma sweep_Cons_ok:
  assumes "appendsOk e"
  shows "sweep e dir (name # names) w =
     (case rmErr e (dir, name) of
        Some err \<Rightarrow>
          sweep e dir names
            (snd (writeLog e (''Could not delete '' @ pathStr e (dir, name) @ '': '' @ message err) WARN
                    (emit (Rm (dir, name)) w)))
      | None \<Rightarrow> sweep e dir names ((emit (Rm (dir, name)) w)\<lparr>files := removeTree e (dir, name) (files w)\<rparr>))"
  using assms
  by (simp add: sweep_Cons andThen_def detached_writeLog appendsOk_def split: option.split)

lemma sweep_ok: "appendsOk e \<Longrightarrow> fst (sweep e dir names w) = Ok ()"
proof (induction names arbitrary: w)
  case Nil
  then show ?case by simp
next
  case (Cons name names)
  then show ?case
    by (simp add: sweep_Cons_ok split: option.split)
qed

lemma noStop_sweep: "appendsOk e \<Longrightarrow> noStop (sweep e dir names)"
  by (simp add: noStop_def sweep_ok)

lemma sweep_removals:
  "appendsOk e \<Longrightarrow> removals (snd (sweep e dir names w)) = removals w @ map (Pair dir) names"
proof (induction names arbitrary: w)
  case Nil
  then show ?case by simp
next
  case (Cons name names)
  then show ?case
    by (simp add: sweep_Cons_ok writeLog_unfold removals_def appendsOk_def split: option.split)
qed

lemma sweep_appended:
  "appendsOk e \<Longrightarrow>
   appended (snd (sweep e dir names w))
     = appended w @ warnLines e dir (tick w) (filter (undeletable e dir) names)"
proof (induction names arbitrary: w)
  case Nil
  then show ?case by simp
next
  case (Cons name names)
  then show ?case
    by (simp add: sweep_Cons_ok writeLog_unfold appended_def undeletable_def appendsOk_def
          split: option.split)
qed

lemma length_warnLines: "length (warnLines e dir t names) = length names"
  by (induction names arbitrary: t) simp_all

subsection \<open>The task wrapper, composed\<close>

lemma adds_report:
  "P ev1 \<Longrightarrow> P ev2 \<Longrightarrow> adds P m \<Longrightarrow> adds P (\<lambda>w. m (emit ev2 (emit ev1 w)))"
  using adds_after [of P ev1 "\<lambda>w. m (emit ev2 w)"] adds_after [of P ev2 m] by simp

lemma runTask_shape:
  "runTask e title task
     = (\<lambda>w. tryCatch
          (andThen task (\<lambda>result w1.
             (Ok True, emit (SpinnerSucceed Green
                (case result of
                   Some m \<Rightarrow> if m \<noteq> [] then title @ '' - '' @ m else title
                 | None \<Rightarrow> title)) w1)))
          (\<lambda>error w1.
             andThen (writeLog e (title @ '' failed: '' @ message error) ERROR) (\<lambda>u w2. (Ok False, w2))
               (emit (ConsoleError Red (''  '' @ indentLines (message error)))
                  (emit (SpinnerFail Red title) w1)))
          (emit (SpinnerStart title) w))"
  by (rule ext) (simp add: runTask_def)

lemma failed_adds:
  assumes "noStart ev1" and "noStart ev2"
  shows "adds noStart (\<lambda>w1.
      andThen (writeLog e msg lvl) (\<lambda>u w2. (Ok b, w2)) (emit ev2 (emit ev1 w1)))"
proof -
  have "adds noStart (andThen (writeLog e msg lvl) (\<lambda>u w2. (Ok b, w2)))"
    by (intro adds_andThen adds_writeLog adds_pure)
  then show ?thesis
    using assms adds_report [of noStart ev1 ev2 "andThen (writeLog e msg lvl) (\<lambda>u w2. (Ok b, w2))"]
    by simp
qed

lemma failed_returns:
  assumes "appendsOk e"
  shows "returns (\<lambda>w1.
      andThen (writeLog e msg lvl) (\<lambda>u w2. (Ok b, w2)) (emit ev2 (emit ev1 w1)))"
proof -
  have "returns (andThen (writeLog e msg lvl) (\<lambda>u w2. (Ok b, w2)))"
    by (intro returns_andThen returns_writeLog assms returns_pure)
  then show ?thesis
    by (simp add: returns_def)
qed

lemma wrapped_adds:
  assumes "adds noStart task"
  shows "adds noStart (tryCatch
          (andThen task (\<lambda>result w1.
             (Ok True, emit (SpinnerSucceed Green
                (case result of
                   Some m \<Rightarrow> if m \<noteq> [] then title @ '' - '' @ m else title
                 | None \<Rightarrow> title)) w1)))
          (\<lambda>error w1.
             andThen (writeLog e (title @ '' failed: '' @ message error) ERROR) (\<lambda>u w2. (Ok False, w2))
               (emit (ConsoleError Red (''  '' @ indentLines (message error)))
                  (emit (SpinnerFail Red title) w1))))"
  by (intro adds_tryCatch adds_andThen assms adds_emit failed_adds) simp_all

lemma runTask_started:
  assumes "adds noStart task"
  shows "started (snd (runTask e title task w)) = started w @ [title]"
  using adds_started [OF wrapped_adds [OF assms], of title e "emit (SpinnerStart title) w"]
  by (simp add: runTask_shape)

lemma runTask_trace:
  assumes "adds noStart task"
  shows "adds (\<lambda>ev. True) (runTask e title task)"
proof -
  have "adds (\<lambda>ev. True) (tryCatch
          (andThen task (\<lambda>result w1.
             (Ok True, emit (SpinnerSucceed Green
                (case result of
                   Some m \<Rightarrow> if m \<noteq> [] then title @ '' - '' @ m else title
                 | None \<Rightarrow> title)) w1)))
          (\<lambda>error w1.
             andThen (writeLog e (title @ '' failed: '' @ message error) ERROR) (\<lambda>u w2. (Ok False, w2))
               (emit (ConsoleError Red (''  '' @ indentLines (message error)))
                  (emit (SpinnerFail Red title) w1))))"
    using wrapped_adds [OF assms] by (rule adds_mono) simp
  then show ?thesis
    unfolding runTask_shape by (rule adds_after [rotated]) simp
qed

lemma runTask_returns:
  assumes "appendsOk e" and "noStop task"
  shows "returns (runTask e title task)"
proof -
  have "returns (tryCatch
          (andThen task (\<lambda>result w1.
             (Ok True, emit (SpinnerSucceed Green
                (case result of
                   Some m \<Rightarrow> if m \<noteq> [] then title @ '' - '' @ m else title
                 | None \<Rightarrow> title)) w1)))
          (\<lambda>error w1.
             andThen (writeLog e (title @ '' failed: '' @ message error) ERROR) (\<lambda>u w2. (Ok False, w2))
               (emit (ConsoleError Red (''  '' @ indentLines (message error)))
                  (emit (SpinnerFail Red title) w1))))"
    by (intro returns_tryCatch noStop_andThen assms noStop_pure failed_returns)
  then show ?thesis
    unfolding runTask_shape by (rule returns_after)
qed

subsection \<open>The operations\<close>

lemmas adds_intros =
  adds_andThen adds_tryCatch adds_andFinally adds_pure adds_emit adds_writeLog adds_fs
  adds_runCommand adds_sweep failed_adds

lemmas noStop_intros =
  noStop_andThen noStop_tryCatch noStop_andFinally noStop_pure noStop_writeLog noStop_fs
  noStop_runCommand

lemma rethrow_props:
  "adds P (\<lambda>w. if c then (Err a, w) else (Err b, w))"
  "noStop (\<lambda>w. if c then (Err a, w) else (Err b, w))"
  by (simp_all add: adds_def noStop_def)

lemma winUpdate_props:
  "started (snd (runWindowsUpdateCheck e w)) = started w @ [titleOf WinUpdate]"
  "appendsOk e \<Longrightarrow> commandsEnd e \<Longrightarrow> returns (runWindowsUpdateCheck e)"
  unfolding runWindowsUpdateCheck_def Let_def titleOf.simps
  by (rule runTask_started runTask_returns,
      (intro adds_intros noStop_intros | assumption)+)+

lemma winget_props:
  "started (snd (runWingetUpdates e w)) = started w @ [titleOf Winget]"
  "appendsOk e \<Longrightarrow> commandsEnd e \<Longrightarrow> returns (runWingetUpdates e)"
  unfolding runWingetUpdates_def titleOf.simps
  by (rule runTask_started runTask_returns,
      (intro adds_intros noStop_intros | assumption | simp)+)+

lemma choco_props:
  "started (snd (runChocoUpdates e w)) = started w @ [titleOf Choco]"
  "appendsOk e \<Longrightarrow> commandsEnd e \<Longrightarrow> returns (runChocoUpdates e)"
  unfolding runChocoUpdates_def titleOf.simps
  by (rule runTask_started runTask_returns,
      (intro adds_intros noStop_intros | assumption | simp)+)+

lemma dism_props:
  "started (snd (runDismCheck e w)) = started w @ [titleOf Dism]"
  "appendsOk e \<Longrightarrow> commandsEnd e \<Longrightarrow> returns (runDismCheck e)"
  unfolding runDismCheck_def titleOf.simps
  by (rule runTask_started runTask_returns,
      (intro adds_intros noStop_intros | assumption)+)+

lemma sfc_props:
  "started (snd (runSfcScan e w)) = started w @ [titleOf Sfc]"
  "appendsOk e \<Longrightarrow> commandsEnd e \<Longrightarrow> returns (runSfcScan e)"
  unfolding runSfcScan_def titleOf.simps
  by (rule runTask_started runTask_returns,
      (intro adds_intros noStop_intros rethrow_props | assumption)+)+

lemma optimize_props:
  "started (snd (runDiskOptimization e w)) = started w @ [titleOf Optimize]"
  "appendsOk e \<Longrightarrow> commandsEnd e \<Longrightarrow> returns (runDiskOptimization e)"
  unfolding runDiskOptimization_def titleOf.simps
  by (rule runTask_started runTask_returns,
      (intro adds_intros noStop_intros | assumption)+)+


lemma cleanFolder_adds: "adds noStart (cleanFolder e dir)"
  unfolding cleanFolder_def by (intro adds_intros)

lemma cleanFolder_noStop: "appendsOk e \<Longrightarrow> noStop (cleanFolder e dir)"
  unfolding cleanFolder_def by (intro noStop_intros noStop_sweep)

lemma cleanFolders_Cons:
  "cleanFolders e (dir # rest) = andThen (cleanFolder e dir) (\<lambda>u. cleanFolders e rest)"
  by (rule ext) simp

lemma cleanFolders_Nil: "cleanFolders e [] = (\<lambda>w. (Ok (), w))"
  by (rule ext) simp

lemma cleanFolders_adds: "adds noStart (cleanFolders e dirs)"
  by (induction dirs) (simp_all add: cleanFolders_Cons cleanFolders_Nil adds_andThen cleanFolder_adds adds_pure
        del: cleanFolders.simps)

lemma cleanFolders_noStop: "appendsOk e \<Longrightarrow> noStop (cleanFolders e dirs)"
  by (induction dirs) (simp_all add: cleanFolders_Cons cleanFolders_Nil noStop_andThen cleanFolder_noStop
        noStop_pure del: cleanFolders.simps)

lemma cleanup_props:
  "started (snd (runTempFileCleanup e w)) = started w @ [titleOf Cleanup]"
  "appendsOk e \<Longrightarrow> returns (runTempFileCleanup e)"
  unfolding runTempFileCleanup_def titleOf.simps
  by (rule runTask_started runTask_returns,
      (intro adds_intros noStop_intros cleanFolders_adds cleanFolders_noStop | assumption)+)+

lemma runHardwareCheck_shape:
  "runHardwareCheck e
     = (\<lambda>w. tryCatch
       (andThen (dateNowCall e) (\<lambda>t.
          andThen (writeFile e (tmpdir e, ''hw-info-'' @ showNat t @ ''.ps1'') (inventoryScript e)) (\<lambda>u.
             andThen
               (runCommand e ''powershell.exe''
                  [''-ExecutionPolicy'', ''Bypass'', ''-File'',
                   pathStr e (tmpdir e, ''hw-info-'' @ showNat t @ ''.ps1'')]) (\<lambda>r.
             andThen (jsonParse e (fst r)) (\<lambda>u1.
             andThen
               (tryCatch (unlink e (tmpdir e, ''hw-info-'' @ showNat t @ ''.ps1''))
                  (\<lambda>err. writeLog e (''Failed to delete temp script: '' @ message err) WARN)) (\<lambda>u2.
             andThen (renderSummary e (fst r)) (\<lambda>output w1.
               andThen (writeLog e ''Gathered Hardware & OS Information'' INFO) (\<lambda>u3 w2. (Ok True, w2))
                 (emit (ConsoleLog None output)
                    (emit (SpinnerSucceed Green ''Gathered Hardware & OS Information'') w1)))))))))
       (\<lambda>error w1.
          andThen (writeLog e (''Hardware & OS Information failed: '' @ message error) ERROR)
            (\<lambda>u w2. (Ok False, w2))
            (emit (ConsoleError Red (''  '' @ indentLines (message error)))
               (emit (SpinnerFail Red ''Gathering Hardware & OS Information'') w1)))
       (emit (SpinnerStart ''Gathering Hardware & OS Information'') w))"
  by (rule ext) (simp add: runHardwareCheck_def Let_def)

lemma failed_noStop:
  "noStop (\<lambda>w1. andThen (writeLog e msg lvl) (\<lambda>u w2. (Ok b, w2)) (emit ev2 (emit ev1 w1)))"
proof -
  have "noStop (andThen (writeLog e msg lvl) (\<lambda>u w2. (Ok b, w2)))"
    by (intro noStop_andThen noStop_writeLog noStop_pure)
  then show ?thesis
    by (simp add: noStop_def)
qed

lemma hwInfo_props:
  "started (snd (runHardwareCheck e w)) = started w @ [titleOf HwInfo]"
  "appendsOk e \<Longrightarrow> commandsEnd e \<Longrightarrow> returns (runHardwareCheck e)"
proof -
  let ?body = "tryCatch
       (andThen (dateNowCall e) (\<lambda>t.
          andThen (writeFile e (tmpdir e, ''hw-info-'' @ showNat t @ ''.ps1'') (inventoryScript e)) (\<lambda>u.
             andThen
               (runCommand e ''powershell.exe''
                  [''-ExecutionPolicy'', ''Bypass'', ''-File'',
                   pathStr e (tmpdir e, ''hw-info-'' @ showNat t @ ''.ps1'')]) (\<lambda>r.
             andThen (jsonParse e (fst r)) (\<lambda>u1.
             andThen
               (tryCatch (unlink e (tmpdir e, ''hw-info-'' @ showNat t @ ''.ps1''))
                  (\<lambda>err. writeLog e (''Failed to delete temp script: '' @ message err) WARN)) (\<lambda>u2.
             andThen (renderSummary e (fst r)) (\<lambda>output w1.
               andThen (writeLog e ''Gathered Hardware & OS Information'' INFO) (\<lambda>u3 w2. (Ok True, w2))
                 (emit (ConsoleLog None output)
                    (emit (SpinnerSucceed Green ''Gathered Hardware & OS Information'') w1)))))))))
       (\<lambda>error w1.
          andThen (writeLog e (''Hardware & OS Information failed: '' @ message error) ERROR)
            (\<lambda>u w2. (Ok False, w2))
            (emit (ConsoleError Red (''  '' @ indentLines (message error)))
               (emit (SpinnerFail Red ''Gathering Hardware & OS Information'') w1)))"
  have "adds noStart ?body"
    by (intro adds_intros) simp_all
  then show "started (snd (runHardwareCheck e w)) = started w @ [titleOf HwInfo]"
    using adds_started [of ?body "emit (SpinnerStart ''Gathering Hardware & OS Information'') w"]
    by (simp add: runHardwareCheck_shape)
  assume h: "appendsOk e" "commandsEnd e"
  have "returns ?body"
    by (intro returns_tryCatch noStop_intros failed_noStop failed_returns h)
  then show "returns (runHardwareCheck e)"
    unfolding runHardwareCheck_shape by (rule returns_after)
qed


subsection \<open>The catalog and the loop\<close>

lemma tasks_total: "\<exists>name task checked. map_of tasks k = Some (name, task, checked)"
  by (cases k) (auto simp: tasks_def)

lemma task_started:
  "map_of tasks k = Some (name, task, checked) \<Longrightarrow> started (snd (task e w)) = started w @ [titleOf k]"
  by (cases k)
     (auto simp: tasks_def hwInfo_props(1) winUpdate_props(1) winget_props(1) choco_props(1)
        dism_props(1) sfc_props(1) cleanup_props(1) optimize_props(1) simp del: titleOf.simps)

lemma task_returns:
  "map_of tasks k = Some (name, task, checked) \<Longrightarrow> appendsOk e \<Longrightarrow> commandsEnd e \<Longrightarrow> returns (task e)"
  by (cases k)
     (auto simp: tasks_def hwInfo_props(2) winUpdate_props(2) winget_props(2) choco_props(2)
        dism_props(2) sfc_props(2) cleanup_props(2) optimize_props(2))

lemma runSelected_step:
  assumes "map_of tasks k = Some (name, task, checked)"
  shows "runSelected e (k # ks) w = andThen (task e) (\<lambda>b. runSelected e ks) w"
  using assms by simp

lemma runSelected_started:
  "fst (runSelected e ks w) = Ok u \<Longrightarrow> started (snd (runSelected e ks w)) = started w @ map titleOf ks"
proof (induction ks arbitrary: w)
  case Nil
  then show ?case by simp
next
  case (Cons k ks)
  obtain name task checked where look: "map_of tasks k = Some (name, task, checked)"
    using tasks_total by blast
  obtain r w1 where tw: "task e w = (r, w1)" by (cases "task e w")
  have st: "started w1 = started w @ [titleOf k]"
    using task_started [OF look, of e w] tw by simp
  show ?case
  proof (cases r)
    case (Ok b)
    then have eq: "runSelected e (k # ks) w = runSelected e ks w1"
      using tw by (simp add: runSelected_step [OF look] andThen_def del: runSelected.simps)
    then have "fst (runSelected e ks w1) = Ok u"
      using Cons.prems by simp
    then have "started (snd (runSelected e ks w1)) = started w1 @ map titleOf ks"
      by (rule Cons.IH)
    then show ?thesis
      using eq st by simp
  next
    case (Err err)
    then have "fst (runSelected e (k # ks) w) = Err err"
      using tw by (simp add: runSelected_step [OF look] andThen_def del: runSelected.simps)
    then show ?thesis using Cons.prems by simp
  next
    case (Stop s)
    then have "fst (runSelected e (k # ks) w) = Stop s"
      using tw by (simp add: runSelected_step [OF look] andThen_def del: runSelected.simps)
    then show ?thesis using Cons.prems by simp
  qed
qed

lemma runSelected_healthy:
  assumes "appendsOk e" and "commandsEnd e"
  shows "fst (runSelected e ks w) = Ok ()"
proof (induction ks arbitrary: w)
  case Nil
  then show ?case by simp
next
  case (Cons k ks)
  obtain name task checked where look: "map_of tasks k = Some (name, task, checked)"
    using tasks_total by blast
  obtain b where b: "fst (task e w) = Ok b"
    using task_returns [OF look assms] by (auto simp: returns_def)
  have "runSelected e (k # ks) w = runSelected e ks (snd (task e w))"
    using b by (cases "task e w") (simp add: runSelected_step [OF look] andThen_def del: runSelected.simps)
  then show ?case
    using Cons.IH [of "snd (task e w)"] by simp
qed


subsection \<open>The main flow on a healthy machine\<close>

lemma map_filter_distinct:
  "distinct (map f xs) \<Longrightarrow>
   map f (filter Q xs) = filter (\<lambda>y. \<exists>x \<in> set xs. f x = y \<and> Q x) (map f xs)"
proof (induction xs)
  case Nil
  then show ?case by simp
next
  case (Cons x xs)
  let ?P = "\<lambda>y. \<exists>z \<in> set (x # xs). f z = y \<and> Q z"
  let ?P' = "\<lambda>y. \<exists>z \<in> set xs. f z = y \<and> Q z"
  have fresh: "f x \<notin> f ` set xs" and d: "distinct (map f xs)"
    using Cons.prems by auto
  have tl: "filter ?P (map f xs) = filter ?P' (map f xs)"
    using fresh by (intro filter_cong refl) (auto simp: image_iff)
  have hd: "?P (f x) = Q x"
    using fresh by (metis image_eqI set_ConsD list.set_intros(1))
  have "map f (filter Q (x # xs)) = (if Q x then [f x] else []) @ map f (filter Q xs)"
    by simp
  also have "\<dots> = (if ?P (f x) then [f x] else []) @ filter ?P' (map f xs)"
    by (simp only: hd Cons.IH [OF d])
  also have "\<dots> = (if ?P (f x) then [f x] else []) @ filter ?P (map f xs)"
    by (simp only: tl)
  also have "\<dots> = filter ?P (map f (x # xs))"
    by simp
  finally show ?case .
qed

lemma keys_of_choices:
  "map (\<lambda>c. fst (snd c)) choices = map fst tasks" "distinct (map fst tasks)"
  by (simp_all add: choices_def tasks_def)

lemma selection_filter: "\<exists>P. selection e = filter P (map fst tasks)"
proof (cases "silent e")
  case True
  then have "selection e = filter (\<lambda>k. True) (map fst tasks)"
    by (simp add: selection_def)
  then show ?thesis by blast
next
  case False
  have "distinct (map (\<lambda>c. fst (snd c)) choices)"
    by (simp only: keys_of_choices)
  then have "map (\<lambda>c. fst (snd c)) (filter (ticked e) choices)
      = filter (\<lambda>y. \<exists>x \<in> set choices. fst (snd x) = y \<and> ticked e x) (map (\<lambda>c. fst (snd c)) choices)"
    by (rule map_filter_distinct)
  then have "selection e
      = filter (\<lambda>y. \<exists>x \<in> set choices. fst (snd x) = y \<and> ticked e x) (map fst tasks)"
    using False by (simp only: selection_def keys_of_choices if_False)
  then show ?thesis by blast
qed

lemma selectTasks_unfold:
  "silent e \<or> promptErr e = None \<Longrightarrow>
   selectTasks e w = (Ok (selection e), if silent e then w else emit (Prompt choices) w)"
  by (auto simp: selectTasks_def selection_def)

lemma checkAdmin_passes:
  assumes "probeOk e" and "appendsOk e"
  shows "fst (checkAdmin e w) = Ok ()"
    and "started (snd (checkAdmin e w)) = started w @ [''Checking for Administrator privileges'']"
  using assms
  by (auto simp: checkAdmin_def tryCatch_def andThen_def runCommand_def probeOk_def appendsOk_def
        writeLog_unfold started_def split: option.splits res.splits)

lemma main_healthy:
  assumes "appendsOk e" and "commandsEnd e" and "probeOk e" and "silent e \<or> promptErr e = None"
  shows "fst (main e w) = Ok ()
       \<and> started (snd (main e w))
            = started w @ ''Checking for Administrator privileges'' # map titleOf (selection e)"
proof -
  let ?w0 = "emit (ConsoleLog (Some BoldCyan) (''=== Windows System Maintenance Tool (Node.js) ==='' @ [LF])) w"
  obtain w1 where l1: "writeLog e ''Script started.'' INFO ?w0 = (Ok (), w1)"
    and s1: "started w1 = started w"
    using assms(1) by (simp add: writeLog_unfold appendsOk_def started_def)
  obtain w2 where c2: "checkAdmin e w1 = (Ok (), w2)"
    and s2: "started w2 = started w @ [''Checking for Administrator privileges'']"
    using checkAdmin_passes [OF assms(3) assms(1), of w1] s1 by (cases "checkAdmin e w1") simp
  obtain w3 where t3: "selectTasks e w2 = (Ok (selection e), w3)"
    and s3: "started w3 = started w2"
    using selectTasks_unfold [OF assms(4), of w2] by simp
  show ?thesis
  proof (cases "selection e = []")
    case True
    then show ?thesis
      using l1 c2 t3 s2 s3 by (simp add: main_def andThen_def)
  next
    case False
    let ?w4 = "emit (ConsoleLog None []) w3"
    have r: "fst (runSelected e (selection e) ?w4) = Ok ()"
      using assms(1) assms(2) by (rule runSelected_healthy)
    have s: "started (snd (runSelected e (selection e) ?w4)) = started ?w4 @ map titleOf (selection e)"
      using r by (rule runSelected_started)
    obtain w5 where r5: "runSelected e (selection e) ?w4 = (Ok (), w5)"
      using r by (cases "runSelected e (selection e) ?w4") simp
    show ?thesis
      using False l1 c2 t3 r5 s s2 s3 by (simp add: main_def andThen_def)
  qed
qed

text \<open>
  C5, as the code has it. On a machine where the log can be appended to and every command
  ends, the loop always comes to its end, whatever the commands answer, and the spinners it
  has started are those of the selected entries, one each, in the order of the selection.
  In general: whatever boolean the operation of an entry returns, false included, the loop
  goes on with the remaining entries from the world the operation left; when the operation
  of an entry raises, as the wrapper does when its log entry cannot be appended, the loop is
  left with that error and the remaining entries do not run. When the loop comes to its end,
  every selected entry has run, in order. The selection itself is the catalog with some
  entries left out, so its order is the declared order.
\<close>

theorem loop_never_stops_on_failure:
  "(appendsOk e \<and> commandsEnd e \<longrightarrow>
      fst (runSelected e ks w) = Ok ()
      \<and> started (snd (runSelected e ks w)) = started w @ map titleOf ks)
   \<and> (map_of tasks k = Some (name, task, checked) \<and> fst (task e w) = Ok b \<longrightarrow>
      runSelected e (k # ks) w = runSelected e ks (snd (task e w)))
   \<and> (map_of tasks k = Some (name, task, checked) \<and> fst (task e w) = Err err \<longrightarrow>
      runSelected e (k # ks) w = (Err err, snd (task e w)))
   \<and> (fst (runSelected e ks w) = Ok () \<longrightarrow>
      started (snd (runSelected e ks w)) = started w @ map titleOf ks)
   \<and> (\<exists>P. selection e = filter P (map fst tasks))"
proof -
  have "map_of tasks k = Some (name, task, checked) \<and> fst (task e w) = Ok b \<longrightarrow>
      runSelected e (k # ks) w = runSelected e ks (snd (task e w))"
    by (cases "task e w") (auto simp: andThen_def)
  moreover have "map_of tasks k = Some (name, task, checked) \<and> fst (task e w) = Err err \<longrightarrow>
      runSelected e (k # ks) w = (Err err, snd (task e w))"
    by (cases "task e w") (auto simp: andThen_def)
  moreover have "fst (runSelected e ks w) = Ok () \<longrightarrow>
      started (snd (runSelected e ks w)) = started w @ map titleOf ks"
    using runSelected_started by blast
  moreover have "appendsOk e \<and> commandsEnd e \<longrightarrow> fst (runSelected e ks w) = Ok ()"
    using runSelected_healthy by blast
  moreover have "\<exists>P. selection e = filter P (map fst tasks)"
    using selection_filter by blast
  ultimately show ?thesis by blast
qed

theorem loop_never_stops_on_failure_witness:
  "fst (runDismCheck failingEnv (startWorld [])) = Ok False
   \<and> runSelected failingEnv [Dism, Sfc, Optimize] (startWorld [])
       = runSelected failingEnv [Sfc, Optimize] (snd (runDismCheck failingEnv (startWorld [])))
   \<and> fst (runSelected failingEnv [Dism, Sfc, Optimize] (startWorld [])) = Ok ()
   \<and> started (snd (runSelected failingEnv [Dism, Sfc, Optimize] (startWorld [])))
       = [''Checking DISM Health'', ''Running System File Checker (sfc /scannow)'',
          ''Optimizing System Drive (C:)'']"
proof -
  have look: "map_of tasks Dism = Some (''Check DISM Health'', runDismCheck, True)"
    by (simp add: tasks_def)
  have one: "showCode (Some 1) = ''1''"
    by code_simp
  have f: "fst (runDismCheck failingEnv (startWorld [])) = Ok False"
    by (simp add: runDismCheck_def runTask_def tryCatch_def andThen_def runCommand_def
        promiseOf_def writeLog_unfold failingEnv_def quietEnv_def startWorld_def one)
  have h: "appendsOk failingEnv \<and> commandsEnd failingEnv"
    by (simp add: appendsOk_def commandsEnd_def failingEnv_def quietEnv_def promiseOf_def)
  note T = loop_never_stops_on_failure [where e = failingEnv and k = Dism and ks = "[Sfc, Optimize]"
      and name = "''Check DISM Health''" and task = runDismCheck and checked = True
      and b = False and w = "startWorld []"]
  note U = loop_never_stops_on_failure [where e = failingEnv and ks = "[Dism, Sfc, Optimize]"
      and w = "startWorld []"]
  have a: "runSelected failingEnv [Dism, Sfc, Optimize] (startWorld [])
       = runSelected failingEnv [Sfc, Optimize] (snd (runDismCheck failingEnv (startWorld [])))"
    using T look f by blast
  have b: "fst (runSelected failingEnv [Dism, Sfc, Optimize] (startWorld [])) = Ok ()"
    using U h by blast
  have "started (snd (runSelected failingEnv [Dism, Sfc, Optimize] (startWorld [])))
       = started (startWorld []) @ map titleOf [Dism, Sfc, Optimize]"
    using U h by blast
  then show ?thesis
    using f a b by (simp add: started_def startWorld_def)
qed

text \<open>
  The log can be appended to for the entry of the first failing operation and no longer
  for the entry of the second: the first wrapper returns false, the second raises, the loop
  is left and the third entry never runs.
\<close>

theorem loop_left_counterexample:
  "fst (runDismCheck lateBrokenEnv (startWorld [])) = Ok False
   \<and> fst (runSelected lateBrokenEnv [Dism, Sfc, Optimize] (startWorld []))
       = Err (JSError ''ENOSPC: no space left on device'')
   \<and> started (snd (runSelected lateBrokenEnv [Dism, Sfc, Optimize] (startWorld [])))
       = [''Checking DISM Health'', ''Running System File Checker (sfc /scannow)'']"
proof -
  have one: "showCode (Some 1) = ''1''"
    by code_simp
  show ?thesis
    by (simp add: tasks_def runDismCheck_def runSfcScan_def runTask_def tryCatch_def andThen_def
        runCommand_def promiseOf_def writeLog_unfold one LF_def started_def startWorld_def emit_def
        lateBrokenEnv_def failingEnv_def quietEnv_def)
qed

subsection \<open>The gate and the exit status\<close>

lemma writeLog_obs [simp]:
  "started (snd (writeLog e msg lvl w)) = started w"
  "spawned (snd (writeLog e msg lvl w)) = spawned w"
  "appended (snd (writeLog e msg lvl w))
     = appended w @ [(logFile e, logEntry (clock e (tick w)) lvl msg (eol e))]"
  by (simp_all add: writeLog_unfold started_def spawned_def appended_def split: option.split)


lemma startWorld_obs [simp]:
  "started (startWorld fs) = []" "spawned (startWorld fs) = []" "appended (startWorld fs) = []"
  "removals (startWorld fs) = []"
  by (simp_all add: startWorld_def started_def spawned_def appended_def removals_def)







lemma program_healthy:
  assumes "appendsOk e" and "commandsEnd e" and "probeOk e" and "silent e \<or> promptErr e = None"
  shows "program e fs = (Exited 0, snd (main e (startWorld fs)))"
proof -
  have "fst (main e (startWorld fs)) = Ok ()"
    using main_healthy [OF assms, of "startWorld fs"] by simp
  then show ?thesis
    by (cases "main e (startWorld fs)") (simp add: program_def)
qed




subsection \<open>What the orchestrator selects\<close>

lemma catalog_keys: "map fst tasks = [HwInfo, WinUpdate, Winget, Choco, Dism, Sfc, Cleanup, Optimize]"
  by (simp add: tasks_def)

lemma choices_list:
  "choices =
     [(''Gather Hardware & OS Information'', HwInfo, True),
      (''Check for Windows Updates'', WinUpdate, True),
      (''Update Winget Software'', Winget, True),
      (''Update Chocolatey Software'', Choco, True),
      (''Check DISM Health'', Dism, True),
      (''Run System File Checker (SFC)'', Sfc, True),
      (''Clean Temporary Files'', Cleanup, True),
      (''Optimize System Drive'', Optimize, False)]"
  by (simp add: choices_def tasks_def)

lemma program_started:
  assumes "appendsOk e" and "commandsEnd e" and "probeOk e" and "silent e \<or> promptErr e = None"
  shows "started (snd (program e fs))
       = ''Checking for Administrator privileges'' # map titleOf (selection e)"
  using main_healthy [OF assms, of "startWorld fs"] program_healthy [OF assms, of fs]
  by simp

text \<open>
  C4, as the code has it. In silent mode the selection is every key of the catalog, in
  declared order, the entry whose flag is false included. In interactive mode the prompt is
  shown the catalog entries with their flags as the pre-checked defaults, and the selection
  is what it answers: the values of the ticked choices. On a machine where the gate passes,
  the log can be appended to and every command ends, the operations that run are exactly
  those of the selection, in its order.
\<close>

theorem selection_is_run:
  "(silent e \<longrightarrow>
      selectTasks e w = (Ok [HwInfo, WinUpdate, Winget, Choco, Dism, Sfc, Cleanup, Optimize], w)
      \<and> selection e = [HwInfo, WinUpdate, Winget, Choco, Dism, Sfc, Cleanup, Optimize])
   \<and> (\<not> silent e \<and> promptErr e = None \<longrightarrow>
      selectTasks e w
        = (Ok (map (\<lambda>c. fst (snd c)) (filter (ticked e) choices)), emit (Prompt choices) w)
      \<and> selection e = map (\<lambda>c. fst (snd c)) (filter (ticked e) choices))
   \<and> choices =
       [(''Gather Hardware & OS Information'', HwInfo, True),
        (''Check for Windows Updates'', WinUpdate, True),
        (''Update Winget Software'', Winget, True),
        (''Update Chocolatey Software'', Choco, True),
        (''Check DISM Health'', Dism, True),
        (''Run System File Checker (SFC)'', Sfc, True),
        (''Clean Temporary Files'', Cleanup, True),
        (''Optimize System Drive'', Optimize, False)]
   \<and> (appendsOk e \<and> commandsEnd e \<and> probeOk e \<and> (silent e \<or> promptErr e = None) \<longrightarrow>
      started (snd (program e fs))
        = ''Checking for Administrator privileges'' # map titleOf (selection e))"
proof -
  have "silent e \<longrightarrow>
      selectTasks e w = (Ok [HwInfo, WinUpdate, Winget, Choco, Dism, Sfc, Cleanup, Optimize], w)
      \<and> selection e = [HwInfo, WinUpdate, Winget, Choco, Dism, Sfc, Cleanup, Optimize]"
    by (simp add: selectTasks_def selection_def catalog_keys)
  moreover have "\<not> silent e \<and> promptErr e = None \<longrightarrow>
      selectTasks e w
        = (Ok (map (\<lambda>c. fst (snd c)) (filter (ticked e) choices)), emit (Prompt choices) w)
      \<and> selection e = map (\<lambda>c. fst (snd c)) (filter (ticked e) choices)"
    by (simp add: selectTasks_def selection_def)
  ultimately show ?thesis
    using choices_list program_started [of e fs] by blast
qed

theorem selection_is_run_witness:
  "started (snd (program quietEnv []))
     = [''Checking for Administrator privileges'', ''Gathering Hardware & OS Information'',
        ''Checking for Windows Updates'', ''Updating Winget Software'',
        ''Updating Chocolatey Software'', ''Checking DISM Health'',
        ''Running System File Checker (sfc /scannow)'', ''Cleaning Temporary Files'',
        ''Optimizing System Drive (C:)'']
   \<and> started (snd (program interactiveEnv []))
     = [''Checking for Administrator privileges'', ''Gathering Hardware & OS Information'',
        ''Checking for Windows Updates'', ''Updating Winget Software'',
        ''Updating Chocolatey Software'', ''Checking DISM Health'',
        ''Running System File Checker (sfc /scannow)'', ''Cleaning Temporary Files'']"
proof -
  have q: "appendsOk quietEnv \<and> commandsEnd quietEnv \<and> probeOk quietEnv
      \<and> (silent quietEnv \<or> promptErr quietEnv = None)"
    by (simp add: probeOk_def appendsOk_def commandsEnd_def promiseOf_def quietEnv_def)
  have i: "appendsOk interactiveEnv \<and> commandsEnd interactiveEnv \<and> probeOk interactiveEnv
      \<and> (silent interactiveEnv \<or> promptErr interactiveEnv = None)"
    by (simp add: probeOk_def appendsOk_def commandsEnd_def promiseOf_def interactiveEnv_def quietEnv_def)
  have sq: "silent quietEnv"
    by (simp add: quietEnv_def)
  have si: "\<not> silent interactiveEnv \<and> promptErr interactiveEnv = None"
    by (simp add: interactiveEnv_def quietEnv_def)
  note Q = selection_is_run [of quietEnv "startWorld []" "[]"]
  note I = selection_is_run [of interactiveEnv "startWorld []" "[]"]
  have "selection quietEnv = [HwInfo, WinUpdate, Winget, Choco, Dism, Sfc, Cleanup, Optimize]"
    using Q sq by blast
  moreover have "started (snd (program quietEnv []))
       = ''Checking for Administrator privileges'' # map titleOf (selection quietEnv)"
    using Q q by blast
  moreover have "selection interactiveEnv
       = map (\<lambda>c. fst (snd c)) (filter (ticked interactiveEnv) choices)"
    using I si by blast
  moreover have "map (\<lambda>c. fst (snd c)) (filter (ticked interactiveEnv) choices)
       = [HwInfo, WinUpdate, Winget, Choco, Dism, Sfc, Cleanup]"
    by (simp add: choices_list interactiveEnv_def quietEnv_def)
  moreover have "started (snd (program interactiveEnv []))
       = ''Checking for Administrator privileges'' # map titleOf (selection interactiveEnv)"
    using I i by blast
  ultimately show ?thesis
    by simp
qed

theorem silent_runs_unchecked_counterexample:
  "silent quietEnv
   \<and> map_of tasks Optimize = Some (''Optimize System Drive'', runDiskOptimization, False)
   \<and> ''Optimizing System Drive (C:)'' \<in> set (started (snd (program quietEnv [])))"
proof -
  have q: "appendsOk quietEnv" "commandsEnd quietEnv" "probeOk quietEnv"
      "silent quietEnv \<or> promptErr quietEnv = None"
    by (simp_all add: probeOk_def appendsOk_def commandsEnd_def promiseOf_def quietEnv_def)
  have s: "selection quietEnv = [HwInfo, WinUpdate, Winget, Choco, Dism, Sfc, Cleanup, Optimize]"
    by (simp add: selection_def catalog_keys quietEnv_def)
  have "started (snd (program quietEnv []))
       = ''Checking for Administrator privileges'' # map titleOf (selection quietEnv)"
    using q by (rule program_started)
  then have a: "''Optimizing System Drive (C:)'' \<in> set (started (snd (program quietEnv [])))"
    by (simp add: s)
  have b: "map_of tasks Optimize = Some (''Optimize System Drive'', runDiskOptimization, False)"
    by (simp add: tasks_def)
  show ?thesis
    using a b by (simp add: quietEnv_def)
qed


subsection \<open>The cleanup\<close>

lemma cleanFolder_returns: "appendsOk e \<Longrightarrow> returns (cleanFolder e dir)"
  unfolding cleanFolder_def
  by (intro returns_tryCatch noStop_intros noStop_sweep returns_writeLog)

lemma cleanFolders_returns: "appendsOk e \<Longrightarrow> returns (cleanFolders e dirs)"
  by (induction dirs)
     (simp_all add: cleanFolders_Cons cleanFolders_Nil returns_andThen cleanFolder_returns returns_pure
        del: cleanFolders.simps)

lemma andThen_const:
  assumes "fst (andThen m (\<lambda>u w. (Ok c, w)) w0) = Ok r"
  shows "andThen m (\<lambda>u w. (Ok c, w)) w0 = (Ok c, snd (m w0))"
proof (cases "m w0")
  case (Pair r0 w1)
  then show ?thesis
    using assms by (cases r0) (simp_all add: andThen_def)
qed

lemma cleanup_succeeds:
  assumes "appendsOk e"
  shows "fst (runTempFileCleanup e w) = Ok True"
    and "last (trace (snd (runTempFileCleanup e w))) = SpinnerSucceed Green ''Cleaning Temporary Files''"
proof -
  let ?task = "andThen (cleanFolders e [tmpdir e, windowsTemp]) (\<lambda>u w. (Ok (None :: string option), w))"
  let ?w0 = "emit (SpinnerStart ''Cleaning Temporary Files'') w"
  have "returns ?task"
    by (intro returns_andThen cleanFolders_returns assms returns_pure)
  then obtain r where "fst (?task ?w0) = Ok r"
    unfolding returns_def by blast
  then have "?task ?w0 = (Ok None, snd (cleanFolders e [tmpdir e, windowsTemp] ?w0))"
    by (rule andThen_const)
  then have "runTempFileCleanup e w
      = (Ok True, emit (SpinnerSucceed Green ''Cleaning Temporary Files'')
                    (snd (cleanFolders e [tmpdir e, windowsTemp] ?w0)))"
    unfolding runTempFileCleanup_def by (simp only: runTask_Ok option.case)
  then show "fst (runTempFileCleanup e w) = Ok True"
    and "last (trace (snd (runTempFileCleanup e w))) = SpinnerSucceed Green ''Cleaning Temporary Files''"
    by simp_all
qed

lemma readdir_unfold:
  "readdir e dir w = (case readdirErr e dir of
       Some err \<Rightarrow> (Err err, emit (Readdir dir) w)
     | None \<Rightarrow> (Ok (listing e dir (files w)), emit (Readdir dir) w))"
  by (simp add: readdir_def Let_def split: option.split)

lemma tryCatch_Ok: "fst (m w) = Ok a \<Longrightarrow> tryCatch m h w = (Ok a, snd (m w))"
  by (cases "m w") (simp add: tryCatch_def)

lemma cleanFolder_listed:
  assumes "appendsOk e" and "readdirErr e dir = None"
  shows "cleanFolder e dir w
       = (Ok (), snd (sweep e dir
            (listing e dir (appendChunk (logFile e)
               (logEntry (clock e (tick w)) INFO (''Cleaning folder: '' @ dir) (eol e)) (files w)))
            (emit (Readdir dir) (snd (writeLog e (''Cleaning folder: '' @ dir) INFO w)))))"
proof -
  let ?names = "listing e dir (appendChunk (logFile e)
               (logEntry (clock e (tick w)) INFO (''Cleaning folder: '' @ dir) (eol e)) (files w))"
  let ?w1 = "emit (Readdir dir) (snd (writeLog e (''Cleaning folder: '' @ dir) INFO w))"
  have ok: "appendErr e (Suc (tick w)) = None"
    using assms(1) by (simp add: appendsOk_def)
  have s: "fst (sweep e dir ?names ?w1) = Ok ()"
    using assms(1) by (rule sweep_ok)
  have "cleanFolder e dir w
      = tryCatch (\<lambda>w1. sweep e dir ?names ?w1)
          (\<lambda>err. writeLog e (''Could not access temp path '' @ dir @ '': '' @ message err) WARN) w"
    using ok assms(2)
    by (simp add: cleanFolder_def tryCatch_def andThen_def writeLog_unfold readdir_unfold emit_def)
  also have "\<dots> = (Ok (), snd (sweep e dir ?names ?w1))"
    using s by (rule tryCatch_Ok)
  finally show ?thesis .
qed

lemma cleanFolder_unlisted:
  assumes "appendErr e (Suc (tick w)) = None" and "readdirErr e dir = Some err"
  shows "cleanFolder e dir w
       = writeLog e (''Could not access temp path '' @ dir @ '': '' @ message err) WARN
           (emit (Readdir dir) (snd (writeLog e (''Cleaning folder: '' @ dir) INFO w)))"
  using assms
  by (simp add: cleanFolder_def tryCatch_def andThen_def writeLog_unfold readdir_unfold emit_def)

lemma tick_writeLog [simp]: "tick (snd (writeLog e msg lvl w)) = Suc (Suc (tick w))"
  by (simp add: writeLog_unfold split: option.split)

lemma files_writeLog:
  "appendErr e (Suc (tick w)) = None \<Longrightarrow>
   files (snd (writeLog e msg lvl w))
     = appendChunk (logFile e) (logEntry (clock e (tick w)) lvl msg (eol e)) (files w)"
  by (simp add: writeLog_unfold)

lemma removals_writeLog [simp]: "removals (snd (writeLog e msg lvl w)) = removals w"
  by (simp add: writeLog_unfold removals_def split: option.split)

text \<open>
  C9, as the code has it. On a machine where the log can be appended to, the cleanup
  reports success and returns true. There the sweep of a folder goes over every name and
  appends one WARN entry for each entry that cannot be removed and nothing else: as many
  entries as there are undeletable names. A folder that cannot be enumerated gets one WARN
  entry, none of its entries is removed, and the operation goes on.
\<close>

theorem cleanup_always_succeeds:
  "(appendsOk e \<longrightarrow>
      fst (runTempFileCleanup e w) = Ok True
      \<and> last (trace (snd (runTempFileCleanup e w))) = SpinnerSucceed Green ''Cleaning Temporary Files'')
   \<and> (appendsOk e \<longrightarrow>
        fst (sweep e dir names w) = Ok ()
        \<and> appended (snd (sweep e dir names w))
            = appended w @ warnLines e dir (tick w) (filter (undeletable e dir) names))
   \<and> length (warnLines e dir (tick w) (filter (undeletable e dir) names))
       = length (filter (undeletable e dir) names)
   \<and> (appendsOk e \<and> readdirErr e dir = None \<longrightarrow>
        fst (cleanFolder e dir w) = Ok ()
        \<and> appended (snd (cleanFolder e dir w))
            = appended w
              @ (logFile e, logEntry (clock e (tick w)) INFO (''Cleaning folder: '' @ dir) (eol e))
              # warnLines e dir (tick w + 2)
                  (filter (undeletable e dir)
                     (listing e dir (appendChunk (logFile e)
                        (logEntry (clock e (tick w)) INFO (''Cleaning folder: '' @ dir) (eol e))
                        (files w)))))
   \<and> (appendsOk e \<and> readdirErr e dir = Some err \<longrightarrow>
        fst (cleanFolder e dir w) = Ok ()
        \<and> appended (snd (cleanFolder e dir w))
            = appended w
              @ [(logFile e, logEntry (clock e (tick w)) INFO (''Cleaning folder: '' @ dir) (eol e)),
                 (logFile e, logEntry (clock e (tick w + 2)) WARN
                    (''Could not access temp path '' @ dir @ '': '' @ message err) (eol e))]
        \<and> removals (snd (cleanFolder e dir w)) = removals w)"
proof -
  have a: "appendsOk e \<longrightarrow>
      fst (runTempFileCleanup e w) = Ok True
      \<and> last (trace (snd (runTempFileCleanup e w))) = SpinnerSucceed Green ''Cleaning Temporary Files''"
    using cleanup_succeeds by blast
  have b: "appendsOk e \<and> readdirErr e dir = None \<longrightarrow>
        fst (cleanFolder e dir w) = Ok ()
        \<and> appended (snd (cleanFolder e dir w))
            = appended w
              @ (logFile e, logEntry (clock e (tick w)) INFO (''Cleaning folder: '' @ dir) (eol e))
              # warnLines e dir (tick w + 2)
                  (filter (undeletable e dir)
                     (listing e dir (appendChunk (logFile e)
                        (logEntry (clock e (tick w)) INFO (''Cleaning folder: '' @ dir) (eol e))
                        (files w))))"
  proof
    assume h: "appendsOk e \<and> readdirErr e dir = None"
    then have l: "cleanFolder e dir w
       = (Ok (), snd (sweep e dir
            (listing e dir (appendChunk (logFile e)
               (logEntry (clock e (tick w)) INFO (''Cleaning folder: '' @ dir) (eol e)) (files w)))
            (emit (Readdir dir) (snd (writeLog e (''Cleaning folder: '' @ dir) INFO w)))))"
      by (simp add: cleanFolder_listed)
    show "fst (cleanFolder e dir w) = Ok ()
        \<and> appended (snd (cleanFolder e dir w))
            = appended w
              @ (logFile e, logEntry (clock e (tick w)) INFO (''Cleaning folder: '' @ dir) (eol e))
              # warnLines e dir (tick w + 2)
                  (filter (undeletable e dir)
                     (listing e dir (appendChunk (logFile e)
                        (logEntry (clock e (tick w)) INFO (''Cleaning folder: '' @ dir) (eol e))
                        (files w))))"
      using h unfolding l by (simp add: sweep_appended)
  qed
  have c: "appendsOk e \<and> readdirErr e dir = Some err \<longrightarrow>
        fst (cleanFolder e dir w) = Ok ()
        \<and> appended (snd (cleanFolder e dir w))
            = appended w
              @ [(logFile e, logEntry (clock e (tick w)) INFO (''Cleaning folder: '' @ dir) (eol e)),
                 (logFile e, logEntry (clock e (tick w + 2)) WARN
                    (''Could not access temp path '' @ dir @ '': '' @ message err) (eol e))]
        \<and> removals (snd (cleanFolder e dir w)) = removals w"
  proof
    assume h: "appendsOk e \<and> readdirErr e dir = Some err"
    then have ok: "appendErr e (Suc (tick w)) = None" "\<And>t. appendErr e t = None"
      by (simp_all add: appendsOk_def)
    have "fst (writeLog e (''Could not access temp path '' @ dir @ '': '' @ message err) WARN
           (emit (Readdir dir) (snd (writeLog e (''Cleaning folder: '' @ dir) INFO w)))) = Ok ()"
      using ok(2) by (simp add: writeLog_unfold)
    then show "fst (cleanFolder e dir w) = Ok ()
        \<and> appended (snd (cleanFolder e dir w))
            = appended w
              @ [(logFile e, logEntry (clock e (tick w)) INFO (''Cleaning folder: '' @ dir) (eol e)),
                 (logFile e, logEntry (clock e (tick w + 2)) WARN
                    (''Could not access temp path '' @ dir @ '': '' @ message err) (eol e))]
        \<and> removals (snd (cleanFolder e dir w)) = removals w"
      using h ok(1) by (simp add: cleanFolder_unlisted)
  qed
  have d: "appendsOk e \<longrightarrow>
        fst (sweep e dir names w) = Ok ()
        \<and> appended (snd (sweep e dir names w))
            = appended w @ warnLines e dir (tick w) (filter (undeletable e dir) names)"
    using sweep_ok [of e dir names w] sweep_appended [of e dir names w] by blast
  show ?thesis
    using a b c d length_warnLines by blast
qed

theorem cleanup_always_succeeds_witness:
  "fst (runTempFileCleanup lockedEnv (startWorld [((''T'', ''a''), []), ((''T'', ''b''), []), ((''T'', ''c''), [])]))
     = Ok True
   \<and> length (appended (snd (sweep lockedEnv ''T'' [''a'', ''b'', ''c''] (startWorld [])))) = 2
   \<and> fst (cleanFolder unreadableEnv ''T'' (startWorld [])) = Ok ()
   \<and> removals (snd (cleanFolder unreadableEnv ''T'' (startWorld []))) = []"
proof -
  have ok: "appendsOk lockedEnv" "appendsOk unreadableEnv"
    by (simp_all add: appendsOk_def lockedEnv_def unreadableEnv_def quietEnv_def)
  have un: "readdirErr unreadableEnv ''T'' = Some (JSError ''EPERM: operation not permitted'')"
    by (simp add: unreadableEnv_def quietEnv_def)
  have two: "length (filter (undeletable lockedEnv ''T'') [''a'', ''b'', ''c'']) = 2"
    by (simp add: undeletable_def lockedEnv_def quietEnv_def)
  note L = cleanup_always_succeeds [where e = lockedEnv and dir = "''T''" and names = "[''a'', ''b'', ''c'']"]
  note U = cleanup_always_succeeds [where e = unreadableEnv and dir = "''T''" and w = "startWorld []"
      and err = "JSError ''EPERM: operation not permitted''"]
  have a: "fst (runTempFileCleanup lockedEnv
                  (startWorld [((''T'', ''a''), []), ((''T'', ''b''), []), ((''T'', ''c''), [])])) = Ok True"
    using L [of "startWorld [((''T'', ''a''), []), ((''T'', ''b''), []), ((''T'', ''c''), [])]"] ok(1)
    by blast
  have "appended (snd (sweep lockedEnv ''T'' [''a'', ''b'', ''c''] (startWorld [])))
      = appended (startWorld []) @ warnLines lockedEnv ''T'' (tick (startWorld []))
          (filter (undeletable lockedEnv ''T'') [''a'', ''b'', ''c''])"
    and "length (warnLines lockedEnv ''T'' (tick (startWorld []))
          (filter (undeletable lockedEnv ''T'') [''a'', ''b'', ''c'']))
      = length (filter (undeletable lockedEnv ''T'') [''a'', ''b'', ''c''])"
    using L [of "startWorld []"] ok(1) by blast+
  then have b: "length (appended (snd (sweep lockedEnv ''T'' [''a'', ''b'', ''c''] (startWorld [])))) = 2"
    using two by simp
  have c: "fst (cleanFolder unreadableEnv ''T'' (startWorld [])) = Ok ()
      \<and> removals (snd (cleanFolder unreadableEnv ''T'' (startWorld []))) = removals (startWorld [])"
    using U ok(2) un by blast
  show ?thesis
    using a b c by simp
qed

theorem cleanup_reports_failure_counterexample:
  "fst (runTempFileCleanup flakyLogEnv (startWorld [])) = Ok False
   \<and> SpinnerFail Red ''Cleaning Temporary Files''
       \<in> set (trace (snd (runTempFileCleanup flakyLogEnv (startWorld []))))"
  by (simp add: runTempFileCleanup_def runTask_def cleanFolder_def tryCatch_def andThen_def
        writeLog_unfold flakyLogEnv_def quietEnv_def startWorld_def emit_def)

subsection \<open>The cleanup and the log file\<close>

lemma removals_member: "p \<in> set (removals w) \<longleftrightarrow> Rm p \<in> set (trace w)"
proof -
  have "p \<in> set (concat (map rmOf tr)) \<longleftrightarrow> Rm p \<in> set tr" for tr
  proof (induction tr)
    case Nil
    then show ?case by simp
  next
    case (Cons ev tr)
    then show ?case by (cases ev) auto
  qed
  then show ?thesis by (simp add: removals_def)
qed

lemma appendChunk_has: "p \<in> fst ` set (appendChunk p d fs)"
proof (induction fs)
  case Nil
  then show ?case by simp
next
  case (Cons f fs)
  obtain q cs where f: "f = (q, cs)" by (cases f)
  show ?case
  proof (cases "q = p")
    case True
    then show ?thesis by (simp add: f)
  next
    case False
    then show ?thesis using Cons.IH by (simp add: f)
  qed
qed

lemma listing_has: "(dir, name) \<in> fst ` set fs \<Longrightarrow> name \<in> set (listing e dir fs)"
  by (auto simp: listing_def entries_def image_iff)

lemma rest_of_cleanup_adds:
  "adds (\<lambda>ev. True)
     (tryCatch
        (andThen (andThen (cleanFolders e dirs) (\<lambda>u w. (Ok (None :: string option), w)))
           (\<lambda>result w1.
              (Ok True, emit (SpinnerSucceed Green
                 (case result of
                    Some m \<Rightarrow> if m \<noteq> [] then title @ '' - '' @ m else title
                  | None \<Rightarrow> title)) w1)))
        (\<lambda>error w1.
           andThen (writeLog e (title @ '' failed: '' @ message error) ERROR) (\<lambda>u w2. (Ok False, w2))
             (emit (ConsoleError Red (''  '' @ indentLines (message error)))
                (emit (SpinnerFail Red title) w1))))"
proof -
  have "adds noStart (andThen (cleanFolders e dirs) (\<lambda>u w. (Ok (None :: string option), w)))"
    by (intro adds_andThen cleanFolders_adds adds_pure)
  then show ?thesis
    by (intro adds_mono [OF wrapped_adds]) simp_all
qed

text \<open>
  C10, as the code has it. On a machine where the log can be appended to and the temporary
  directory can be enumerated, the log file of the run is among the paths the cleanup calls
  \<^verbatim>\<open>fs.rm\<close> on: the entry that announces the sweep has created it in that very directory,
  and the sweep goes over every name it finds there.
\<close>

theorem cleanup_removes_own_log:
  assumes "appendsOk e" and "readdirErr e (tmpdir e) = None"
  shows "logFile e \<in> set (removals (snd (runTempFileCleanup e w)))"
proof -
  let ?w0 = "emit (SpinnerStart ''Cleaning Temporary Files'') w"
  let ?entry = "logEntry (clock e (tick ?w0)) INFO (''Cleaning folder: '' @ tmpdir e) (eol e)"
  let ?names = "listing e (tmpdir e) (appendChunk (logFile e) ?entry (files ?w0))"
  let ?w2 = "snd (sweep e (tmpdir e) ?names
               (emit (Readdir (tmpdir e)) (snd (writeLog e (''Cleaning folder: '' @ tmpdir e) INFO ?w0))))"
  have first: "cleanFolder e (tmpdir e) ?w0 = (Ok (), ?w2)"
    using assms by (rule cleanFolder_listed)
  have "logName e \<in> set ?names"
    using appendChunk_has [of "logFile e" ?entry "files ?w0"]
    by (intro listing_has) (simp add: logFile_def)
  then have "logFile e \<in> set (removals ?w2)"
    using assms(1) by (simp add: sweep_removals logFile_def)
  then have mem: "Rm (logFile e) \<in> set (trace ?w2)"
    by (simp add: removals_member)
  let ?rest = "tryCatch
        (andThen (andThen (cleanFolders e [windowsTemp]) (\<lambda>u w. (Ok (None :: string option), w)))
           (\<lambda>result w1.
              (Ok True, emit (SpinnerSucceed Green
                 (case result of
                    Some m \<Rightarrow> if m \<noteq> [] then ''Cleaning Temporary Files'' @ '' - '' @ m
                              else ''Cleaning Temporary Files''
                  | None \<Rightarrow> ''Cleaning Temporary Files'')) w1)))
        (\<lambda>error w1.
           andThen (writeLog e (''Cleaning Temporary Files'' @ '' failed: '' @ message error) ERROR)
             (\<lambda>u w2. (Ok False, w2))
             (emit (ConsoleError Red (''  '' @ indentLines (message error)))
                (emit (SpinnerFail Red ''Cleaning Temporary Files'') w1)))"
  have eq: "runTempFileCleanup e w = ?rest ?w2"
    using first
    by (simp add: runTempFileCleanup_def runTask_def tryCatch_def andThen_def
          del: cleanFolders.simps(2) add: cleanFolders_Cons)
  have "Rm (logFile e) \<in> set (trace (snd (?rest ?w2)))"
    using rest_of_cleanup_adds mem by (rule adds_member)
  then show ?thesis
    by (simp add: eq removals_member)
qed

theorem cleanup_removes_own_log_witness:
  "(''T'', ''SystemMaintenance-2024-05-06T07-08-09.000Z.log'')
     \<in> set (removals (snd (runTempFileCleanup quietEnv (startWorld [((''T'', ''a''), [])]))))"
proof -
  have a: "appendsOk quietEnv"
    and b: "readdirErr quietEnv (tmpdir quietEnv) = None"
    by (simp_all add: appendsOk_def quietEnv_def)
  have "logFile quietEnv = (''T'', ''SystemMaintenance-2024-05-06T07-08-09.000Z.log'')"
    by (simp add: logFile_def logName_def colonsToDashes_def quietEnv_def)
  then show ?thesis
    using cleanup_removes_own_log [OF a b] by simp
qed

theorem cleanup_spares_log_counterexample:
  "removals (snd (runTempFileCleanup unreadableEnv (startWorld []))) = []"
  by (simp add: runTempFileCleanup_def runTask_def cleanFolder_def tryCatch_def andThen_def
        writeLog_unfold readdir_unfold unreadableEnv_def quietEnv_def startWorld_def emit_def
        removals_def)


section \<open>Reading an entry back\<close>

lemma levelStr_plain: "CHR '']'' \<notin> set (levelStr lvl)" "CR \<notin> set (levelStr lvl)" "LF \<notin> set (levelStr lvl)"
  by (cases lvl; simp add: CR_def LF_def)+

lemma parseLevel_levelStr: "parseLevel (levelStr lvl) = Some lvl"
  by (cases lvl) (simp_all add: parseLevel_def)

lemma firstLine_entry:
  assumes "CR \<notin> set ts" "LF \<notin> set ts" "CR \<notin> set msg" "LF \<notin> set msg"
    and "terminator = [LF] \<or> terminator = [CR, LF]"
  shows "firstLine (logEntry ts lvl msg terminator) = ts @ '' ['' @ levelStr lvl @ ''] '' @ msg"
proof -
  let ?body = "ts @ '' ['' @ levelStr lvl @ ''] '' @ msg"
  have plain: "\<And>c. c \<in> set ?body \<Longrightarrow> c \<noteq> CR \<and> c \<noteq> LF"
    using assms(1-4) levelStr_plain(2,3) [of lvl] by (auto simp: CR_def LF_def)
  have "takeWhile (\<lambda>c. c \<noteq> CR \<and> c \<noteq> LF) (?body @ terminator)
      = ?body @ takeWhile (\<lambda>c. c \<noteq> CR \<and> c \<noteq> LF) terminator"
    using plain by (rule takeWhile_append2)
  moreover have "takeWhile (\<lambda>c. c \<noteq> CR \<and> c \<noteq> LF) terminator = []"
    using assms(5) by auto
  moreover have "logEntry ts lvl msg terminator = ?body @ terminator"
    by (simp add: logEntry_def)
  ultimately show ?thesis
    by (simp add: firstLine_def)
qed

lemma parseLine_body:
  assumes "CHR '' '' \<notin> set ts"
  shows "parseLine (ts @ '' ['' @ levelStr lvl @ ''] '' @ msg) = Some (ts, lvl, msg)"
proof -
  let ?line = "ts @ '' ['' @ levelStr lvl @ ''] '' @ msg"
  have "\<And>c. c \<in> set ts \<Longrightarrow> c \<noteq> CHR '' ''"
    using assms by auto
  then have "takeWhile (\<lambda>c. c \<noteq> CHR '' '') (ts @ '' ['' @ levelStr lvl @ ''] '' @ msg)
      = ts @ takeWhile (\<lambda>c. c \<noteq> CHR '' '') ('' ['' @ levelStr lvl @ ''] '' @ msg)"
    by (rule takeWhile_append2)
  then have t: "takeWhile (\<lambda>c. c \<noteq> CHR '' '') ?line = ts"
    by simp
  have l: "takeWhile (\<lambda>c. c \<noteq> CHR '']'') (levelStr lvl @ ''] '' @ msg) = levelStr lvl"
    by (cases lvl) simp_all
  have d: "drop (length ts) ?line = '' ['' @ levelStr lvl @ ''] '' @ msg"
    by simp
  have s1: "startsWith ('' ['' @ levelStr lvl @ ''] '' @ msg) '' [''"
    by simp
  have d2: "drop 2 ('' ['' @ levelStr lvl @ ''] '' @ msg) = levelStr lvl @ ''] '' @ msg"
    by simp
  have d3: "drop (length (levelStr lvl)) (levelStr lvl @ ''] '' @ msg) = ''] '' @ msg"
    by simp
  have s2: "startsWith (''] '' @ msg) ''] ''"
    by simp
  have d4: "drop 2 (''] '' @ msg) = msg"
    by simp
  show ?thesis
    by (simp only: parseLine_def Let_def t d s1 d2 l d3 s2 d4 parseLevel_levelStr if_True option.case)
qed

text \<open>
  C8, as the code has it. An entry is the text \<^verbatim>\<open><timestamp> [<LEVEL>] <message>\<close> followed by
  the line terminator. When the message has no line break in it (the timestamp has neither
  a space nor a line break), the entry is one line and its terminator, and reading it back
  gives the timestamp, the level and the message that were written.
\<close>

theorem log_entry_round_trip:
  assumes "CHR '' '' \<notin> set ts" and "CR \<notin> set ts" and "LF \<notin> set ts"
    and "CR \<notin> set msg" and "LF \<notin> set msg"
    and "terminator = [LF] \<or> terminator = [CR, LF]"
  shows "logEntry ts lvl msg terminator = ts @ '' ['' @ levelStr lvl @ ''] '' @ msg @ terminator
       \<and> firstLine (logEntry ts lvl msg terminator) @ terminator = logEntry ts lvl msg terminator
       \<and> parseEntry (logEntry ts lvl msg terminator) = Some (ts, lvl, msg)"
proof -
  have f: "firstLine (logEntry ts lvl msg terminator) = ts @ '' ['' @ levelStr lvl @ ''] '' @ msg"
    using assms(2-6) by (rule firstLine_entry)
  have "parseEntry (logEntry ts lvl msg terminator) = Some (ts, lvl, msg)"
    unfolding parseEntry_def f using assms(1) by (rule parseLine_body)
  moreover have "firstLine (logEntry ts lvl msg terminator) @ terminator = logEntry ts lvl msg terminator"
    unfolding f by (simp add: logEntry_def)
  ultimately show ?thesis
    by (simp add: logEntry_def)
qed

theorem log_entry_round_trip_witness:
  "appended (snd (writeLog quietEnv ''Script started.'' INFO (startWorld [])))
     = [(logFile quietEnv, logEntry ''2024-05-06T07:08:09.000Z'' INFO ''Script started.'' [CR, LF])]
   \<and> parseEntry (logEntry ''2024-05-06T07:08:09.000Z'' INFO ''Script started.'' [CR, LF])
     = Some (''2024-05-06T07:08:09.000Z'', INFO, ''Script started.'')"
proof -
  have h: "CHR '' '' \<notin> set ''2024-05-06T07:08:09.000Z''" "CR \<notin> set ''2024-05-06T07:08:09.000Z''"
      "LF \<notin> set ''2024-05-06T07:08:09.000Z''" "CR \<notin> set ''Script started.''"
      "LF \<notin> set ''Script started.''" "[CR, LF] = [LF] \<or> [CR, LF] = [CR, LF]"
    by (simp_all add: CR_def LF_def)
  have "parseEntry (logEntry ''2024-05-06T07:08:09.000Z'' INFO ''Script started.'' [CR, LF])
     = Some (''2024-05-06T07:08:09.000Z'', INFO, ''Script started.'')"
    using log_entry_round_trip [OF h, of INFO] by blast
  moreover have "appended (snd (writeLog quietEnv ''Script started.'' INFO (startWorld [])))
     = [(logFile quietEnv, logEntry ''2024-05-06T07:08:09.000Z'' INFO ''Script started.'' [CR, LF])]"
    by (simp add: quietEnv_def)
  ultimately show ?thesis by blast
qed

text \<open>
  The entry the wrapper writes for a failed command has the line feed of the command's
  error message in it: it is more than one line, and reading it back gives a message that
  stops at that line feed.
\<close>

theorem multi_line_entry_counterexample:
  "appended (snd (runDismCheck failingEnv (startWorld [])))
     = [(logFile failingEnv,
         logEntry ''2024-05-06T07:08:09.000Z'' ERROR
           (''Checking DISM Health failed: Command failed with exit code 1'' @ [LF] @ ''denied'')
           (eol failingEnv))]
   \<and> firstLine (logEntry ''2024-05-06T07:08:09.000Z'' ERROR
           (''Checking DISM Health failed: Command failed with exit code 1'' @ [LF] @ ''denied'')
           (eol failingEnv)) @ eol failingEnv
       \<noteq> logEntry ''2024-05-06T07:08:09.000Z'' ERROR
           (''Checking DISM Health failed: Command failed with exit code 1'' @ [LF] @ ''denied'')
           (eol failingEnv)
   \<and> parseEntry (logEntry ''2024-05-06T07:08:09.000Z'' ERROR
           (''Checking DISM Health failed: Command failed with exit code 1'' @ [LF] @ ''denied'')
           (eol failingEnv))
       = Some (''2024-05-06T07:08:09.000Z'', ERROR,
               ''Checking DISM Health failed: Command failed with exit code 1'')"
proof -
  have one: "showCode (Some 1) = ''1''"
    by code_simp
  have a: "appended (snd (runDismCheck failingEnv (startWorld [])))
     = [(logFile failingEnv,
         logEntry ''2024-05-06T07:08:09.000Z'' ERROR
           (''Checking DISM Health failed: Command failed with exit code 1'' @ [LF] @ ''denied'')
           (eol failingEnv))]"
    by (simp add: runDismCheck_def runTask_def tryCatch_def andThen_def runCommand_def
        promiseOf_def one writeLog_unfold appended_def startWorld_def failingEnv_def quietEnv_def)
  have b: "firstLine (logEntry ''2024-05-06T07:08:09.000Z'' ERROR
           (''Checking DISM Health failed: Command failed with exit code 1'' @ [LF] @ ''denied'')
           (eol failingEnv))
      = ''2024-05-06T07:08:09.000Z [ERROR] Checking DISM Health failed: Command failed with exit code 1''"
    by (simp add: firstLine_def logEntry_def CR_def LF_def)
  have c: "parseLine ''2024-05-06T07:08:09.000Z [ERROR] Checking DISM Health failed: Command failed with exit code 1''
      = Some (''2024-05-06T07:08:09.000Z'', ERROR,
               ''Checking DISM Health failed: Command failed with exit code 1'')"
    by (simp add: parseLine_def parseLevel_def)
  have d: "firstLine (logEntry ''2024-05-06T07:08:09.000Z'' ERROR
           (''Checking DISM Health failed: Command failed with exit code 1'' @ [LF] @ ''denied'')
           (eol failingEnv)) @ eol failingEnv
       \<noteq> logEntry ''2024-05-06T07:08:09.000Z'' ERROR
           (''Checking DISM Health failed: Command failed with exit code 1'' @ [LF] @ ''denied'')
           (eol failingEnv)"
    unfolding b by (simp add: logEntry_def failingEnv_def quietEnv_def CR_def LF_def)
  have e: "parseEntry (logEntry ''2024-05-06T07:08:09.000Z'' ERROR
           (''Checking DISM Health failed: Command failed with exit code 1'' @ [LF] @ ''denied'')
           (eol failingEnv))
       = Some (''2024-05-06T07:08:09.000Z'', ERROR,
               ''Checking DISM Health failed: Command failed with exit code 1'')"
    unfolding parseEntry_def b by (rule c)
  show ?thesis
    using a d e by blast
qed


end
